theory Spec2Isabelle
  imports Main "HOL-Library.Sublist"
begin

section \<open>Text primitives of the host language\<close>

text \<open>
  The program is a Python script (\<^verbatim>\<open>code_review_gitlab.py\<close>).  The reply of the model is a
  Python \<^verbatim>\<open>str\<close>, a sequence of Unicode code points, and the verdict extractor depends on
  the Unicode classes of its characters: it is modelled as a list of code points.  URLs,
  paths, diffs and file contents are only compared and concatenated; they stay
  \<^typ>\<open>string\<close>s.  An ASCII literal of the program is turned into code points by \<open>str\<close>.
\<close>

type_synonym pystr = "nat list"

definition str :: "string \<Rightarrow> pystr" where
  "str s = map of_char s"

definition isspace :: "nat \<Rightarrow> bool" where
  \<comment> \<open>\<^verbatim>\<open>str.isspace\<close> of one character, which is also the regex class \<^verbatim>\<open>\s\<close> and what
      \<^verbatim>\<open>str.strip\<close> removes: U+0009 to U+000D, U+001C to U+0020, U+0085, U+00A0, U+1680,
      U+2000 to U+200A, U+2028, U+2029, U+202F, U+205F, U+3000\<close>
  "isspace c \<longleftrightarrow>
     (9 \<le> c \<and> c \<le> 13) \<or> (28 \<le> c \<and> c \<le> 32) \<or> c = 133 \<or> c = 160 \<or> c = 5760
     \<or> (8192 \<le> c \<and> c \<le> 8202) \<or> c = 8232 \<or> c = 8233 \<or> c = 8239 \<or> c = 8287 \<or> c = 12288"

text \<open>
  \<^verbatim>\<open>str.upper\<close> maps each code point to its full upper-case form in the Unicode character
  database (version 14.0, the one of CPython 3.11).  The code points whose form has more
  than one character are listed one by one; the others that change are listed as runs
  \<open>(lo, hi, step, target)\<close>: every \<open>step\<close>-th code point from \<open>lo\<close> to \<open>hi\<close> goes
  to \<open>target\<close> plus its distance from \<open>lo\<close>.  Both lists are in ascending order, and a
  code point in neither is its own upper-case form.
\<close>

definition special_upper :: "(nat \<times> nat list) list" where
  "special_upper =
    [
     (223, [83, 83]), (329, [700, 78]), (496, [74, 780]), (912, [921, 776, 769]),
     (944, [933, 776, 769]), (1415, [1333, 1362]), (7830, [72, 817]), (7831, [84, 776]),
     (7832, [87, 778]), (7833, [89, 778]), (7834, [65, 702]), (8016, [933, 787]),
     (8018, [933, 787, 768]), (8020, [933, 787, 769]), (8022, [933, 787, 834]),
     (8064, [7944, 921]), (8065, [7945, 921]), (8066, [7946, 921]), (8067, [7947, 921]),
     (8068, [7948, 921]), (8069, [7949, 921]), (8070, [7950, 921]), (8071, [7951, 921]),
     (8072, [7944, 921]), (8073, [7945, 921]), (8074, [7946, 921]), (8075, [7947, 921]),
     (8076, [7948, 921]), (8077, [7949, 921]), (8078, [7950, 921]), (8079, [7951, 921]),
     (8080, [7976, 921]), (8081, [7977, 921]), (8082, [7978, 921]), (8083, [7979, 921]),
     (8084, [7980, 921]), (8085, [7981, 921]), (8086, [7982, 921]), (8087, [7983, 921]),
     (8088, [7976, 921]), (8089, [7977, 921]), (8090, [7978, 921]), (8091, [7979, 921]),
     (8092, [7980, 921]), (8093, [7981, 921]), (8094, [7982, 921]), (8095, [7983, 921]),
     (8096, [8040, 921]), (8097, [8041, 921]), (8098, [8042, 921]), (8099, [8043, 921]),
     (8100, [8044, 921]), (8101, [8045, 921]), (8102, [8046, 921]), (8103, [8047, 921]),
     (8104, [8040, 921]), (8105, [8041, 921]), (8106, [8042, 921]), (8107, [8043, 921]),
     (8108, [8044, 921]), (8109, [8045, 921]), (8110, [8046, 921]), (8111, [8047, 921]),
     (8114, [8122, 921]), (8115, [913, 921]), (8116, [902, 921]), (8118, [913, 834]),
     (8119, [913, 834, 921]), (8124, [913, 921]), (8130, [8138, 921]), (8131, [919, 921]),
     (8132, [905, 921]), (8134, [919, 834]), (8135, [919, 834, 921]), (8140, [919, 921]),
     (8146, [921, 776, 768]), (8147, [921, 776, 769]), (8150, [921, 834]),
     (8151, [921, 776, 834]), (8162, [933, 776, 768]), (8163, [933, 776, 769]),
     (8164, [929, 787]), (8166, [933, 834]), (8167, [933, 776, 834]), (8178, [8186, 921]),
     (8179, [937, 921]), (8180, [911, 921]), (8182, [937, 834]), (8183, [937, 834, 921]),
     (8188, [937, 921]), (64256, [70, 70]), (64257, [70, 73]), (64258, [70, 76]),
     (64259, [70, 70, 73]), (64260, [70, 70, 76]), (64261, [83, 84]), (64262, [83, 84]),
     (64275, [1348, 1350]), (64276, [1348, 1333]), (64277, [1348, 1339]),
     (64278, [1358, 1350]), (64279, [1348, 1341])
    ]"

definition upper_runs :: "(nat \<times> nat \<times> nat \<times> nat) list" where
  "upper_runs =
    [
     (97, 122, 1, 65), (181, 181, 1, 924), (224, 246, 1, 192), (248, 254, 1, 216),
     (255, 255, 1, 376), (257, 303, 2, 256), (305, 305, 1, 73), (307, 311, 2, 306),
     (314, 328, 2, 313), (331, 375, 2, 330), (378, 382, 2, 377), (383, 383, 1, 83),
     (384, 384, 1, 579), (387, 389, 2, 386), (392, 392, 1, 391), (396, 396, 1, 395),
     (402, 402, 1, 401), (405, 405, 1, 502), (409, 409, 1, 408), (410, 410, 1, 573),
     (414, 414, 1, 544), (417, 421, 2, 416), (424, 424, 1, 423), (429, 429, 1, 428),
     (432, 432, 1, 431), (436, 438, 2, 435), (441, 441, 1, 440), (445, 445, 1, 444),
     (447, 447, 1, 503), (453, 453, 1, 452), (454, 454, 1, 452), (456, 456, 1, 455),
     (457, 457, 1, 455), (459, 459, 1, 458), (460, 460, 1, 458), (462, 476, 2, 461),
     (477, 477, 1, 398), (479, 495, 2, 478), (498, 498, 1, 497), (499, 499, 1, 497),
     (501, 501, 1, 500), (505, 543, 2, 504), (547, 563, 2, 546), (572, 572, 1, 571),
     (575, 576, 1, 11390), (578, 578, 1, 577), (583, 591, 2, 582), (592, 592, 1, 11375),
     (593, 593, 1, 11373), (594, 594, 1, 11376), (595, 595, 1, 385), (596, 596, 1, 390),
     (598, 599, 1, 393), (601, 601, 1, 399), (603, 603, 1, 400), (604, 604, 1, 42923),
     (608, 608, 1, 403), (609, 609, 1, 42924), (611, 611, 1, 404), (613, 613, 1, 42893),
     (614, 614, 1, 42922), (616, 616, 1, 407), (617, 617, 1, 406), (618, 618, 1, 42926),
     (619, 619, 1, 11362), (620, 620, 1, 42925), (623, 623, 1, 412), (625, 625, 1, 11374),
     (626, 626, 1, 413), (629, 629, 1, 415), (637, 637, 1, 11364), (640, 640, 1, 422),
     (642, 642, 1, 42949), (643, 643, 1, 425), (647, 647, 1, 42929), (648, 648, 1, 430),
     (649, 649, 1, 580), (650, 651, 1, 433), (652, 652, 1, 581), (658, 658, 1, 439),
     (669, 669, 1, 42930), (670, 670, 1, 42928), (837, 837, 1, 921), (881, 883, 2, 880),
     (887, 887, 1, 886), (891, 893, 1, 1021), (940, 940, 1, 902), (941, 943, 1, 904),
     (945, 961, 1, 913), (962, 962, 1, 931), (963, 971, 1, 931), (972, 972, 1, 908),
     (973, 974, 1, 910), (976, 976, 1, 914), (977, 977, 1, 920), (981, 981, 1, 934),
     (982, 982, 1, 928), (983, 983, 1, 975), (985, 1007, 2, 984), (1008, 1008, 1, 922),
     (1009, 1009, 1, 929), (1010, 1010, 1, 1017), (1011, 1011, 1, 895), (1013, 1013, 1, 917),
     (1016, 1016, 1, 1015), (1019, 1019, 1, 1018), (1072, 1103, 1, 1040),
     (1104, 1119, 1, 1024), (1121, 1153, 2, 1120), (1163, 1215, 2, 1162),
     (1218, 1230, 2, 1217), (1231, 1231, 1, 1216), (1233, 1327, 2, 1232),
     (1377, 1414, 1, 1329), (4304, 4346, 1, 7312), (4349, 4351, 1, 7357),
     (5112, 5117, 1, 5104), (7296, 7296, 1, 1042), (7297, 7297, 1, 1044),
     (7298, 7298, 1, 1054), (7299, 7300, 1, 1057), (7301, 7301, 1, 1058),
     (7302, 7302, 1, 1066), (7303, 7303, 1, 1122), (7304, 7304, 1, 42570),
     (7545, 7545, 1, 42877), (7549, 7549, 1, 11363), (7566, 7566, 1, 42950),
     (7681, 7829, 2, 7680), (7835, 7835, 1, 7776), (7841, 7935, 2, 7840),
     (7936, 7943, 1, 7944), (7952, 7957, 1, 7960), (7968, 7975, 1, 7976),
     (7984, 7991, 1, 7992), (8000, 8005, 1, 8008), (8017, 8023, 2, 8025),
     (8032, 8039, 1, 8040), (8048, 8049, 1, 8122), (8050, 8053, 1, 8136),
     (8054, 8055, 1, 8154), (8056, 8057, 1, 8184), (8058, 8059, 1, 8170),
     (8060, 8061, 1, 8186), (8112, 8113, 1, 8120), (8126, 8126, 1, 921), (8144, 8145, 1, 8152),
     (8160, 8161, 1, 8168), (8165, 8165, 1, 8172), (8526, 8526, 1, 8498),
     (8560, 8575, 1, 8544), (8580, 8580, 1, 8579), (9424, 9449, 1, 9398),
     (11312, 11359, 1, 11264), (11361, 11361, 1, 11360), (11365, 11365, 1, 570),
     (11366, 11366, 1, 574), (11368, 11372, 2, 11367), (11379, 11379, 1, 11378),
     (11382, 11382, 1, 11381), (11393, 11491, 2, 11392), (11500, 11502, 2, 11499),
     (11507, 11507, 1, 11506), (11520, 11557, 1, 4256), (11559, 11559, 1, 4295),
     (11565, 11565, 1, 4301), (42561, 42605, 2, 42560), (42625, 42651, 2, 42624),
     (42787, 42799, 2, 42786), (42803, 42863, 2, 42802), (42874, 42876, 2, 42873),
     (42879, 42887, 2, 42878), (42892, 42892, 1, 42891), (42897, 42899, 2, 42896),
     (42900, 42900, 1, 42948), (42903, 42921, 2, 42902), (42933, 42947, 2, 42932),
     (42952, 42954, 2, 42951), (42961, 42961, 1, 42960), (42967, 42969, 2, 42966),
     (42998, 42998, 1, 42997), (43859, 43859, 1, 42931), (43888, 43967, 1, 5024),
     (65345, 65370, 1, 65313), (66600, 66639, 1, 66560), (66776, 66811, 1, 66736),
     (66967, 66977, 1, 66928), (66979, 66993, 1, 66940), (66995, 67001, 1, 66956),
     (67003, 67004, 1, 66964), (68800, 68850, 1, 68736), (71872, 71903, 1, 71840),
     (93792, 93823, 1, 93760), (125218, 125251, 1, 125184)
    ]"

fun lookup_special :: "nat \<Rightarrow> (nat \<times> nat list) list \<Rightarrow> nat list option" where
  "lookup_special c [] = None"
| "lookup_special c ((k, v) # rest) =
     (if c < k then None else if c = k then Some v else lookup_special c rest)"

fun lookup_run :: "nat \<Rightarrow> (nat \<times> nat \<times> nat \<times> nat) list \<Rightarrow> nat option" where
  "lookup_run c [] = None"
| "lookup_run c ((lo, hi, step, target) # rest) =
     (if c < lo then None
      else if c \<le> hi \<and> (c - lo) mod step = 0 then Some (target + (c - lo))
      else lookup_run c rest)"

definition upper_cp :: "nat \<Rightarrow> pystr" where
  "upper_cp c =
     (case lookup_special c special_upper of
        Some v \<Rightarrow> v
      | None \<Rightarrow> (case lookup_run c upper_runs of Some t \<Rightarrow> [t] | None \<Rightarrow> [c]))"

definition upper :: "pystr \<Rightarrow> pystr" where
  \<comment> \<open>\<^verbatim>\<open>str.upper()\<close>\<close>
  "upper s = concat (map upper_cp s)"

definition strip :: "pystr \<Rightarrow> pystr" where
  \<comment> \<open>\<^verbatim>\<open>str.strip()\<close>: blanks removed at both ends\<close>
  "strip s = rev (dropWhile isspace (rev (dropWhile isspace s)))"

definition str_in :: "'a list \<Rightarrow> 'a list \<Rightarrow> bool" where
  \<comment> \<open>\<^verbatim>\<open>sub in s\<close>\<close>
  "str_in sub s \<longleftrightarrow> sublist sub s"

function replace :: "'a list \<Rightarrow> 'a list \<Rightarrow> 'a list \<Rightarrow> 'a list" where
  \<comment> \<open>\<^verbatim>\<open>s.replace(old, new)\<close>: every non-overlapping occurrence, scanning from the left\<close>
  "replace [] old new = (if old = [] then new else [])"
| "replace (c # cs) old new =
     (if old = [] then new @ c # replace cs old new
      else if prefix old (c # cs) then new @ replace (drop (length old) (c # cs)) old new
      else c # replace cs old new)"
  by pat_completeness auto
termination
  by (relation "measure (\<lambda>(s, old, new). length s)") (auto simp: neq_Nil_conv)

section \<open>The verdict extractor\<close>

record review_outcome =
  is_ok :: bool
  report :: pystr

text \<open>
  \<^verbatim>\<open>re.search(r"FINAL_STATUS:\s*(PASSED|FAILED)", text, re.IGNORECASE)\<close>.
  The flag applies to the whole pattern.  Under it an ASCII literal matches the two cases
  of its letter and, for three letters, further code points: \<open>I\<close> and \<open>i\<close> also match
  U+0130 and U+0131, \<open>K\<close> and \<open>k\<close> also U+212A, \<open>S\<close> and \<open>s\<close> also U+017F.  A literal that
  is not a letter matches itself only.  The literals of the pattern are all ASCII.
\<close>

definition ignorecase_class :: "nat \<Rightarrow> nat list" where
  \<comment> \<open>the code points an ASCII literal matches under \<^verbatim>\<open>re.IGNORECASE\<close>\<close>
  "ignorecase_class p =
     (if p = 73 \<or> p = 105 then [73, 105, 304, 305]
      else if p = 75 \<or> p = 107 then [75, 107, 8490]
      else if p = 83 \<or> p = 115 then [83, 115, 383]
      else if 65 \<le> p \<and> p \<le> 90 then [p, p + 32]
      else if 97 \<le> p \<and> p \<le> 122 then [p - 32, p]
      else [p])"

fun match_literal :: "pystr \<Rightarrow> pystr \<Rightarrow> pystr option" where
  \<comment> \<open>match a literal at the head of the text; the result is the text that follows\<close>
  "match_literal [] s = Some s"
| "match_literal (p # ps) [] = None"
| "match_literal (p # ps) (c # cs) =
     (if c \<in> set (ignorecase_class p) then match_literal ps cs else None)"

definition match_group :: "pystr \<Rightarrow> pystr option" where
  \<comment> \<open>the group \<^verbatim>\<open>(PASSED|FAILED)\<close> at the head of the text; the result is the text matched\<close>
  "match_group s =
     (if match_literal (str ''PASSED'') s \<noteq> None then Some (take 6 s)
      else if match_literal (str ''FAILED'') s \<noteq> None then Some (take 6 s)
      else None)"

fun match_blanks_group :: "nat \<Rightarrow> pystr \<Rightarrow> (nat \<times> pystr) option" where
  \<comment> \<open>\<^verbatim>\<open>\s*\<close> is greedy: it takes \<open>k\<close> blanks and gives them back one by one while the
      group fails after them; the result is the number of blanks kept and the group\<close>
  "match_blanks_group 0 s = map_option (Pair 0) (match_group s)"
| "match_blanks_group (Suc k) s =
     (case match_group (drop (Suc k) s) of
        Some g \<Rightarrow> Some (Suc k, g)
      | None \<Rightarrow> match_blanks_group k s)"

definition match_here :: "pystr \<Rightarrow> (pystr \<times> pystr) option" where
  \<comment> \<open>the pattern at the head of the text: \<^verbatim>\<open>group(0)\<close> and \<^verbatim>\<open>group(1)\<close>\<close>
  "match_here s =
     (case match_literal (str ''FINAL_STATUS:'') s of
        None \<Rightarrow> None
      | Some r \<Rightarrow>
          (case match_blanks_group (length (takeWhile isspace r)) r of
             None \<Rightarrow> None
           | Some (k, g) \<Rightarrow> Some (take (13 + k + 6) s, g)))"

fun re_search :: "pystr \<Rightarrow> (pystr \<times> pystr) option" where
  \<comment> \<open>the leftmost position where the pattern matches\<close>
  "re_search [] = match_here []"
| "re_search (c # cs) =
     (case match_here (c # cs) of Some m \<Rightarrow> Some m | None \<Rightarrow> re_search cs)"

definition parse_markdown_response :: "pystr \<Rightarrow> review_outcome" where
  "parse_markdown_response text =
     (case re_search text of
        Some (group0, group1) \<Rightarrow>
          (let status_str = upper group1;
               is_ok = (status_str = str ''PASSED'');
               report_content = strip (replace text group0 [])
           in \<lparr>is_ok = is_ok, report = report_content\<rparr>)
      | None \<Rightarrow>
          (let is_ok = (if str_in (str ''CRITICAL BUG'') (upper text)
                          \<or> str_in (str ''SECURITY VULNERABILITY'') (upper text)
                        then False else True);
               report_content = text
           in \<lparr>is_ok = is_ok, report = report_content\<rparr>))"

section \<open>URL construction\<close>

function str_nat :: "nat \<Rightarrow> string" where
  \<comment> \<open>\<^verbatim>\<open>str(n)\<close> of a non-negative integer, as an f-string formats it\<close>
  "str_nat n =
     (if n < 10 then [char_of (48 + n)]
      else str_nat (n div 10) @ [char_of (48 + n mod 10)])"
  by pat_completeness auto
termination
  by (relation "measure id") auto

declare str_nat.simps [simp del]

definition unreserved :: "char \<Rightarrow> bool" where
  \<comment> \<open>the characters \<^verbatim>\<open>urllib.parse.quote\<close> never escapes: letters, digits and \<^verbatim>\<open>_.-~\<close>\<close>
  "unreserved c \<longleftrightarrow>
     (let n = (of_char c :: nat)
      in (65 \<le> n \<and> n \<le> 90) \<or> (97 \<le> n \<and> n \<le> 122) \<or> (48 \<le> n \<and> n \<le> 57)
         \<or> c \<in> {CHR ''_'', CHR ''.'', CHR ''-'', CHR ''~''})"

definition hex_digit :: "nat \<Rightarrow> char" where
  "hex_digit n = (if n < 10 then char_of (48 + n) else char_of (55 + n))"

definition percent :: "nat \<Rightarrow> string" where
  "percent b = [CHR ''%'', hex_digit (b div 16), hex_digit (b mod 16)]"

definition quote_char :: "char \<Rightarrow> string" where
  \<comment> \<open>an escaped character is encoded in UTF-8 first: one byte below 128, two bytes above\<close>
  "quote_char c =
     (let n = (of_char c :: nat)
      in if unreserved c then [c]
         else if n < 128 then percent n
         else percent (192 + n div 64) @ percent (128 + n mod 64))"

definition quote :: "string \<Rightarrow> string" where
  \<comment> \<open>\<^verbatim>\<open>urllib.parse.quote(s, safe='')\<close>\<close>
  "quote s = concat (map quote_char s)"

definition rstrip_slash :: "string \<Rightarrow> string" where
  \<comment> \<open>\<^verbatim>\<open>s.rstrip('/')\<close>\<close>
  "rstrip_slash s = rev (dropWhile (\<lambda>c. c = CHR ''/'') (rev s))"

definition str_opt :: "string option \<Rightarrow> string" where
  \<comment> \<open>an f-string formats \<^verbatim>\<open>None\<close> as the word None\<close>
  "str_opt r = (case r of None \<Rightarrow> ''None'' | Some s \<Rightarrow> s)"

definition changes_url :: "string \<Rightarrow> string \<Rightarrow> string \<Rightarrow> string" where
  "changes_url gitlab_url project_id mr_iid =
     (let safe_id = quote project_id;
          base_url = rstrip_slash gitlab_url
      in base_url @ ''/api/v4/projects/'' @ safe_id @ ''/merge_requests/'' @ mr_iid @ ''/changes'')"

definition raw_file_url :: "string \<Rightarrow> string \<Rightarrow> string \<Rightarrow> string option \<Rightarrow> string" where
  "raw_file_url gitlab_url project_id file_path ref =
     (let safe_id = quote project_id;
          safe_path = quote file_path;
          base_url = rstrip_slash gitlab_url
      in base_url @ ''/api/v4/projects/'' @ safe_id @ ''/repository/files/'' @ safe_path
           @ ''/raw?ref='' @ str_opt ref)"

section \<open>The remote platform and the effects of a run\<close>

text \<open>
  A change of the merge request as the platform's JSON gives it; the keys the program
  reads are \<^verbatim>\<open>new_path\<close>, \<^verbatim>\<open>deleted_file\<close> and \<^verbatim>\<open>diff\<close>.  The two top-level keys are read with
  \<^verbatim>\<open>dict.get\<close>, so each may be absent.  A change is taken to carry its three keys with
  values of these types; the program has no branch of its own for a change that lacks one.
\<close>

record change =
  new_path :: string
  deleted_file :: bool
  diff :: string

record mr_data =
  source_branch :: "string option"
  changes :: "change list option"

datatype exn =
  Exception string \<comment> \<open>\<^verbatim>\<open>raise Exception(...)\<close> of the program itself\<close>
  | Foreign string \<comment> \<open>an exception raised inside a library call: transport, JSON decoding, model, file\<close>

record response =
  status_code :: nat
  resp_text :: string
  json :: "mr_data option" \<comment> \<open>\<^verbatim>\<open>response.json()\<close>; \<open>None\<close> when the body does not decode\<close>

text \<open>
  The world outside the program: \<^verbatim>\<open>requests.get\<close>, the model behind the prompt template
  and the report file.  Each may raise.  What the program does to that world is recorded
  as a list of events, in the order of execution.
\<close>

record env =
  gitlab_private_token :: string
  requests_get :: "string \<Rightarrow> (string \<times> string) list \<Rightarrow> exn + response"
  llm_invoke :: "string \<Rightarrow> exn + pystr"
  write_file :: "string \<Rightarrow> pystr \<Rightarrow> exn option"

datatype message =
  Msg_fetching_metadata string
  | Msg_found_changes nat string
  | Msg_loading string
  | Msg_starting string string
  | Msg_no_matching_files
  | Msg_context_size nat
  | Msg_analyzing
  | Msg_status bool
  | Msg_report_banner
  | Msg_report pystr
  | Msg_error exn

datatype event =
  Print message
  | Http_get string "(string \<times> string) list"
  | Invoke_model string
  | Write_file string pystr

definition get_gitlab_headers :: "env \<Rightarrow> (string \<times> string) list" where
  "get_gitlab_headers env = [(''PRIVATE-TOKEN'', gitlab_private_token env)]"

definition fetch_mr_changes :: "env \<Rightarrow> string \<Rightarrow> string \<Rightarrow> string \<Rightarrow> event list \<times> (exn + mr_data)" where
  "fetch_mr_changes env gitlab_url project_id mr_iid =
     (let url = changes_url gitlab_url project_id mr_iid;
          evs = [Print (Msg_fetching_metadata url), Http_get url (get_gitlab_headers env)]
      in case requests_get env url (get_gitlab_headers env) of
           Inl e \<Rightarrow> (evs, Inl e)
         | Inr response \<Rightarrow>
             if status_code response \<noteq> 200
             then (evs, Inl (Exception (''Failed to fetch MR: '' @ str_nat (status_code response)
                                          @ '' - '' @ resp_text response)))
             else (case json response of
                     None \<Rightarrow> (evs, Inl (Foreign ''JSONDecodeError''))
                   | Some d \<Rightarrow> (evs, Inr d)))"

definition fetch_raw_file :: "env \<Rightarrow> string \<Rightarrow> string \<Rightarrow> string \<Rightarrow> string option \<Rightarrow> event list \<times> (exn + string)" where
  "fetch_raw_file env gitlab_url project_id file_path ref =
     (let url = raw_file_url gitlab_url project_id file_path ref;
          evs = [Http_get url (get_gitlab_headers env)]
      in case requests_get env url (get_gitlab_headers env) of
           Inl e \<Rightarrow> (evs, Inl e)
         | Inr response \<Rightarrow>
             if status_code response \<noteq> 200
             then (evs, Inr (''[Error fetching file content: '' @ str_nat (status_code response) @ '']''))
             else (evs, Inr (resp_text response)))"

section \<open>The context assembler and the formatter\<close>

record document =
  page_content :: string
  source :: string \<comment> \<open>\<^verbatim>\<open>metadata["source"]\<close>\<close>

definition filtered_out :: "string list option \<Rightarrow> string \<Rightarrow> bool" where
  \<comment> \<open>\<^verbatim>\<open>file_filter and not any(file_path.endswith(ext) for ext in file_filter)\<close>;
      \<^verbatim>\<open>None\<close> and the empty list are both false in a condition\<close>
  "filtered_out file_filter file_path \<longleftrightarrow>
     (case file_filter of
        None \<Rightarrow> False
      | Some exts \<Rightarrow> exts \<noteq> [] \<and> \<not> list_ex (\<lambda>ext. suffix ext file_path) exts)"

definition combined_content :: "string \<Rightarrow> string \<Rightarrow> string \<Rightarrow> string" where
  "combined_content file_path diff_content full_content =
     ''FILENAME: '' @ file_path @ ''\<newline>''
     @ ''--- BEGIN DIFF (CHANGES) ---\<newline>'' @ diff_content @ ''\<newline>--- END DIFF ---\<newline>\<newline>''
     @ ''--- BEGIN FULL FILE CONTENT (CONTEXT) ---\<newline>'' @ full_content
     @ ''\<newline>--- END FULL FILE CONTENT ---\<newline>''"

fun load_changes ::
  "env \<Rightarrow> string \<Rightarrow> string \<Rightarrow> string option \<Rightarrow> string list option \<Rightarrow> change list
     \<Rightarrow> document list \<Rightarrow> event list \<times> (exn + document list)" where
  \<comment> \<open>the \<^verbatim>\<open>for change in changes\<close> loop, \<open>docs\<close> being the list built so far\<close>
  "load_changes env gitlab_url project_id branch file_filter [] docs = ([], Inr docs)"
| "load_changes env gitlab_url project_id branch file_filter (change # rest) docs =
     (let file_path = new_path change
      in if filtered_out file_filter file_path
         then load_changes env gitlab_url project_id branch file_filter rest docs
         else if deleted_file change
         then load_changes env gitlab_url project_id branch file_filter rest docs
         else
           (let diff_content = diff change;
                (evs1, fetched) = fetch_raw_file env gitlab_url project_id file_path branch
            in case fetched of
                 Inl e \<Rightarrow> (Print (Msg_loading file_path) # evs1, Inl e)
               | Inr full_content \<Rightarrow>
                   (let doc = \<lparr>page_content = combined_content file_path diff_content full_content,
                               source = file_path\<rparr>;
                        (evs2, res) = load_changes env gitlab_url project_id branch file_filter
                                        rest (docs @ [doc])
                    in (Print (Msg_loading file_path) # evs1 @ evs2, res))))"

definition load_merge_request_data ::
  "env \<Rightarrow> string \<Rightarrow> string \<Rightarrow> string \<Rightarrow> string list option \<Rightarrow> event list \<times> (exn + document list)" where
  "load_merge_request_data env gitlab_url project_id mr_id file_filter =
     (let (evs0, fetched) = fetch_mr_changes env gitlab_url project_id mr_id
      in case fetched of
           Inl e \<Rightarrow> (evs0, Inl e)
         | Inr data \<Rightarrow>
             (let branch = source_branch data;
                  chs = (case changes data of None \<Rightarrow> [] | Some cs \<Rightarrow> cs);
                  (evs1, res) = load_changes env gitlab_url project_id branch file_filter chs []
              in (evs0 @ Print (Msg_found_changes (length chs) mr_id) # evs1, res)))"

fun join :: "'a list \<Rightarrow> 'a list list \<Rightarrow> 'a list" where
  \<comment> \<open>\<^verbatim>\<open>sep.join(parts)\<close>\<close>
  "join sep [] = []"
| "join sep [x] = x"
| "join sep (x # y # ys) = x @ sep @ join sep (y # ys)"

definition format_documents_for_context :: "document list \<Rightarrow> string" where
  "format_documents_for_context docs = join ''\<newline>'' (map page_content docs)"

section \<open>The review orchestrator\<close>

text \<open>
  \<^verbatim>\<open>run_mr_review\<close> after its two set-up calls (credentials and the choice of the model
  backend), which only fill in what \<^typ>\<open>env\<close> holds.  The call of
  \<^verbatim>\<open>load_merge_request_data\<close> is outside the \<^verbatim>\<open>try\<close> block, so what it raises leaves the
  function; what the model or the report file raises is caught and printed.
\<close>

record args =
  arg_gitlab_url :: string
  arg_project_id :: string
  arg_mr_id :: string

definition target_extensions :: "string list" where
  "target_extensions = [''.py'', ''.js'', ''.ts'', ''.jsx'', ''.tsx'', ''.go'', ''.java'', ''.cpp'']"

definition review_documents :: "env \<Rightarrow> document list \<Rightarrow> event list" where
  \<comment> \<open>the part of \<^verbatim>\<open>run_mr_review\<close> that follows the test \<^verbatim>\<open>if not documents\<close>\<close>
  "review_documents env documents =
     (let mr_context = format_documents_for_context documents;
          evs = [Print (Msg_context_size (length mr_context div 4)), Print Msg_analyzing,
                 Invoke_model mr_context]
      in case llm_invoke env mr_context of
           Inl e \<Rightarrow> evs @ [Print (Msg_error e)]
         | Inr content \<Rightarrow>
             (let result = parse_markdown_response content;
                  evs' = evs @ [Print (Msg_status (is_ok result)), Print Msg_report_banner,
                                Print (Msg_report (report result)),
                                Write_file ''mr_review_report.md'' (report result)]
              in case write_file env ''mr_review_report.md'' (report result) of
                   Some e \<Rightarrow> evs' @ [Print (Msg_error e)]
                 | None \<Rightarrow> evs'))"

definition run_mr_review :: "env \<Rightarrow> args \<Rightarrow> event list \<times> (exn + unit)" where
  "run_mr_review env a =
     (let evs0 = [Print (Msg_starting (arg_mr_id a) (arg_project_id a))];
          (evs1, loaded) = load_merge_request_data env (arg_gitlab_url a) (arg_project_id a)
                             (arg_mr_id a) (Some target_extensions)
      in case loaded of
           Inl e \<Rightarrow> (evs0 @ evs1, Inl e)
         | Inr documents \<Rightarrow>
             if documents = [] then (evs0 @ evs1 @ [Print Msg_no_matching_files], Inr ())
             else (evs0 @ evs1 @ review_documents env documents, Inr ()))"

section \<open>Reference notions used in the statements\<close>

text \<open>
  A text matches an ASCII literal without regard to case when it has the literal's length
  and each of its characters is one the literal's character matches.  The parts of a
  status marker are the prefix, the run of blanks and the status word.
\<close>

definition ci_equal :: "pystr \<Rightarrow> pystr \<Rightarrow> bool" where
  "ci_equal s lit \<longleftrightarrow> list_all2 (\<lambda>c p. c \<in> set (ignorecase_class p)) s lit"

definition marker_parts :: "pystr \<Rightarrow> pystr \<Rightarrow> pystr \<Rightarrow> bool" where
  "marker_parts p ws w \<longleftrightarrow>
     ci_equal p (str ''FINAL_STATUS:'') \<and> list_all isspace ws
     \<and> (ci_equal w (str ''PASSED'') \<or> ci_equal w (str ''FAILED''))"

definition marker_here :: "pystr \<Rightarrow> bool" where
  \<comment> \<open>a marker starts at the head of the text\<close>
  "marker_here s \<longleftrightarrow>
     (let r = drop 13 s
      in marker_parts (take 13 s) (takeWhile isspace r) (take 6 (dropWhile isspace r)))"

text \<open>
  The extractor as the specification words it: the prefix \<^verbatim>\<open>FINAL_STATUS:\<close> is matched as
  written and only the status word in any letter case; the matched stretch is cut out of
  the text.
\<close>

definition spec_marker_here :: "pystr \<Rightarrow> (nat \<times> pystr) option" where
  \<comment> \<open>the length of the match at the head of the text, and its status word\<close>
  "spec_marker_here s =
     (if prefix (str ''FINAL_STATUS:'') s
      then (let r = drop 13 s; ws = takeWhile isspace r; w = take 6 (dropWhile isspace r)
            in if ci_equal w (str ''PASSED'') \<or> ci_equal w (str ''FAILED'')
               then Some (13 + length ws + 6, w) else None)
      else None)"

fun spec_search :: "pystr \<Rightarrow> (pystr \<times> nat \<times> pystr) option" where
  \<comment> \<open>the text before the first match, the length of the match, the status word\<close>
  "spec_search [] = None"
| "spec_search (c # cs) =
     (case spec_marker_here (c # cs) of
        Some (n, w) \<Rightarrow> Some ([], n, w)
      | None \<Rightarrow> map_option (\<lambda>(pre, n, w). (c # pre, n, w)) (spec_search cs))"

definition spec_extract :: "pystr \<Rightarrow> review_outcome" where
  "spec_extract text =
     (case spec_search text of
        Some (pre, n, w) \<Rightarrow>
          \<lparr>is_ok = (upper w = str ''PASSED''), report = strip (pre @ drop (length pre + n) text)\<rparr>
      | None \<Rightarrow>
          \<lparr>is_ok = \<not> (str_in (str ''CRITICAL BUG'') (upper text)
                       \<or> str_in (str ''SECURITY VULNERABILITY'') (upper text)),
           report = text\<rparr>)"

text \<open>
  A change is selected when it is not marked deleted and, a non-empty filter being given,
  its new path ends with one of the filter's suffixes.
\<close>

definition selected :: "string list option \<Rightarrow> change \<Rightarrow> bool" where
  "selected file_filter c \<longleftrightarrow>
     \<not> deleted_file c
     \<and> (case file_filter of
          None \<Rightarrow> True
        | Some exts \<Rightarrow> exts = [] \<or> list_ex (\<lambda>ext. suffix ext (new_path c)) exts)"

definition error_sentinel :: "nat \<Rightarrow> string" where
  "error_sentinel s = ''[Error fetching file content: '' @ str_nat s @ '']''"

fun is_http_get :: "event \<Rightarrow> bool" where
  "is_http_get (Http_get url hdrs) = True"
| "is_http_get ev = False"

fun model_or_report :: "event \<Rightarrow> bool" where
  \<comment> \<open>the events of the model invocation and of the report\<close>
  "model_or_report (Invoke_model ctx) = True"
| "model_or_report (Write_file name s) = True"
| "model_or_report (Print (Msg_status b)) = True"
| "model_or_report (Print Msg_report_banner) = True"
| "model_or_report (Print (Msg_report s)) = True"
| "model_or_report ev = False"

text \<open>
  A unit belongs to a change when it carries the change's new path and its body is composed
  from that path, the change's diff and what the raw-file request for the path gave: the
  body of a 200 response, the error placeholder for any other status.
\<close>

definition unit_for :: "env \<Rightarrow> string \<Rightarrow> string \<Rightarrow> string option \<Rightarrow> document \<Rightarrow> change \<Rightarrow> bool" where
  "unit_for env g p b d c \<longleftrightarrow>
     source d = new_path c \<and>
     (\<exists>r. requests_get env (raw_file_url g p (new_path c) b) (get_gitlab_headers env) = Inr r
        \<and> page_content d = combined_content (new_path c) (diff c)
             (if status_code r = 200 then resp_text r else error_sentinel (status_code r)))"

text \<open>
  A platform that answers from a table of URLs and fails to connect elsewhere, with a
  model that always gives the same reply; used to run the program on concrete inputs.
\<close>

definition table_env :: "(string \<times> response) list \<Rightarrow> pystr \<Rightarrow> env" where
  "table_env table reply =
     \<lparr>gitlab_private_token = ''secret'',
      requests_get = (\<lambda>url hdrs. case map_of table url of
                                   None \<Rightarrow> Inl (Foreign ''ConnectionError'')
                                 | Some r \<Rightarrow> Inr r),
      llm_invoke = (\<lambda>ctx. Inr reply),
      write_file = (\<lambda>name s. None)\<rparr>"

text \<open>
  Concrete runs: a merge request of four changes (a Python file, a deleted file, a
  document and a script whose content the platform no longer has), a platform that rejects
  the metadata request, and a merge request with nothing to review.
\<close>

definition demo_args :: args where
  "demo_args = \<lparr>arg_gitlab_url = ''https://gitlab.example.com/'', arg_project_id = ''team/app'',
                 arg_mr_id = ''7''\<rparr>"

definition demo_changes :: "change list" where
  "demo_changes =
     [\<lparr>new_path = ''src/app.py'', deleted_file = False, diff = ''@@ -1 +1 @@''\<rparr>,
      \<lparr>new_path = ''old.py'', deleted_file = True, diff = ''@@ -1 +0,0 @@''\<rparr>,
      \<lparr>new_path = ''README.md'', deleted_file = False, diff = ''@@ -2 +2 @@''\<rparr>,
      \<lparr>new_path = ''web/ui.js'', deleted_file = False, diff = []\<rparr>]"

definition demo_env :: env where
  "demo_env = table_env
     [(''https://gitlab.example.com/api/v4/projects/team%2Fapp/merge_requests/7/changes'',
       \<lparr>status_code = 200, resp_text = [],
        json = Some \<lparr>source_branch = Some ''dev'', changes = Some demo_changes\<rparr>\<rparr>),
      (''https://gitlab.example.com/api/v4/projects/team%2Fapp/repository/files/src%2Fapp.py/raw?ref=dev'',
       \<lparr>status_code = 200, resp_text = ''print(1)'', json = None\<rparr>),
      (''https://gitlab.example.com/api/v4/projects/team%2Fapp/repository/files/web%2Fui.js/raw?ref=dev'',
       \<lparr>status_code = 404, resp_text = ''not found'', json = None\<rparr>)]
     (str ''Looks fine.\<newline>FINAL_STATUS: PASSED'')"

definition rejecting_env :: env where
  "rejecting_env = table_env
     [(''https://gitlab.example.com/api/v4/projects/team%2Fapp/merge_requests/7/changes'',
       \<lparr>status_code = 401, resp_text = ''401 Unauthorized'', json = None\<rparr>)]
     []"

definition docs_only_env :: env where
  "docs_only_env = table_env
     [(''https://gitlab.example.com/api/v4/projects/team%2Fapp/merge_requests/7/changes'',
       \<lparr>status_code = 200, resp_text = [],
        json = Some \<lparr>source_branch = Some ''dev'',
                      changes = Some [\<lparr>new_path = ''old.py'', deleted_file = True, diff = ''@@ -1 +0,0 @@''\<rparr>,
                                      \<lparr>new_path = ''README.md'', deleted_file = False, diff = ''@@ -2 +2 @@''\<rparr>]\<rparr>\<rparr>)]
     (str ''FINAL_STATUS: PASSED'')"

section \<open>Properties of the formatter\<close>

lemma join_Cons: "join sep (x # xs) = x @ concat (map (\<lambda>e. sep @ e) xs)"
  by (induction xs arbitrary: x) simp_all

text \<open>
  C7.  The formatter returns the bodies of the units in their order, a single newline
  between two neighbours and nothing else added or changed: nothing for no unit, and
  otherwise the first body followed by each later body behind one newline.  The result is
  a function of the list alone, so formatting the same list again gives the same text.
\<close>

theorem format_concatenates_bodies:
  "format_documents_for_context docs =
     (case docs of
        [] \<Rightarrow> []
      | d # ds \<Rightarrow> page_content d @ concat (map (\<lambda>e. CHR 0x0A # page_content e) ds))"
  by (cases docs) (simp_all add: format_documents_for_context_def join_Cons comp_def)

section \<open>Properties of the remote client and the assembler\<close>


lemma fetch_raw_file_answered:
  assumes "requests_get env (raw_file_url g p f b) (get_gitlab_headers env) = Inr r"
  shows "fetch_raw_file env g p f b =
           ([Http_get (raw_file_url g p f b) (get_gitlab_headers env)],
            Inr (if status_code r = 200 then resp_text r else error_sentinel (status_code r)))"
  using assms by (simp add: fetch_raw_file_def error_sentinel_def Let_def)

lemma fetch_raw_file_raised:
  assumes "requests_get env (raw_file_url g p f b) (get_gitlab_headers env) = Inl e"
  shows "fetch_raw_file env g p f b =
           ([Http_get (raw_file_url g p f b) (get_gitlab_headers env)], Inl e)"
  using assms by (simp add: fetch_raw_file_def Let_def)

lemma selected_iff: "selected ff c \<longleftrightarrow> \<not> filtered_out ff (new_path c) \<and> \<not> deleted_file c"
  by (auto simp: selected_def filtered_out_def split: option.splits)

lemma load_changes_units:
  assumes "snd (load_changes env g p b ff chs docs) = Inr out"
  shows "\<exists>new. out = docs @ new \<and> list_all2 (unit_for env g p b) new (filter (selected ff) chs)"
  using assms
proof (induction chs arbitrary: docs)
  case Nil
  then show ?case by simp
next
  case (Cons c chs)
  show ?case
  proof (cases "selected ff c")
    case False
    then have "load_changes env g p b ff (c # chs) docs = load_changes env g p b ff chs docs"
      by (auto simp: selected_iff Let_def)
    with Cons False show ?thesis by simp
  next
    case True
    then have nf: "\<not> filtered_out ff (new_path c)" and nd: "\<not> deleted_file c"
      by (simp_all add: selected_iff)
    show ?thesis
    proof (cases "requests_get env (raw_file_url g p (new_path c) b) (get_gitlab_headers env)")
      case (Inl e)
      then have "snd (load_changes env g p b ff (c # chs) docs) = Inl e"
        using nf nd by (simp add: fetch_raw_file_raised Let_def)
      with Cons.prems show ?thesis by simp
    next
      case (Inr r)
      define doc where "doc = \<lparr>page_content = combined_content (new_path c) (diff c)
             (if status_code r = 200 then resp_text r else error_sentinel (status_code r)), source = new_path c\<rparr>"
      have step: "snd (load_changes env g p b ff (c # chs) docs)
                   = snd (load_changes env g p b ff chs (docs @ [doc]))"
        using nf nd Inr by (simp add: fetch_raw_file_answered Let_def doc_def split: prod.splits)
      with Cons.prems have "snd (load_changes env g p b ff chs (docs @ [doc])) = Inr out" by simp
      from Cons.IH[OF this] obtain new where new: "out = (docs @ [doc]) @ new"
        "list_all2 (unit_for env g p b) new (filter (selected ff) chs)" by blast
      have "unit_for env g p b doc c" using Inr by (simp add: unit_for_def doc_def)
      with new True show ?thesis by (intro exI[of _ "doc # new"]) simp
    qed
  qed
qed

lemma load_changes_returns:
  assumes "\<forall>c\<in>set chs. selected ff c \<longrightarrow>
             (\<exists>r. requests_get env (raw_file_url g p (new_path c) b) (get_gitlab_headers env) = Inr r)"
  shows "\<exists>out. snd (load_changes env g p b ff chs docs) = Inr out"
  using assms
proof (induction chs arbitrary: docs)
  case Nil
  then show ?case by simp
next
  case (Cons c chs)
  show ?case
  proof (cases "selected ff c")
    case False
    then have "load_changes env g p b ff (c # chs) docs = load_changes env g p b ff chs docs"
      by (auto simp: selected_iff Let_def)
    with Cons show ?thesis by simp
  next
    case True
    then have nf: "\<not> filtered_out ff (new_path c)" and nd: "\<not> deleted_file c"
      by (simp_all add: selected_iff)
    from True Cons.prems obtain r where
      r: "requests_get env (raw_file_url g p (new_path c) b) (get_gitlab_headers env) = Inr r" by auto
    define doc where "doc = \<lparr>page_content = combined_content (new_path c) (diff c)
             (if status_code r = 200 then resp_text r else error_sentinel (status_code r)), source = new_path c\<rparr>"
    have step: "snd (load_changes env g p b ff (c # chs) docs)
                   = snd (load_changes env g p b ff chs (docs @ [doc]))"
      using nf nd r by (simp add: fetch_raw_file_answered Let_def doc_def split: prod.splits)
    from Cons.IH[of "docs @ [doc]"] Cons.prems step show ?thesis by simp
  qed
qed

lemma load_changes_events:
  "\<forall>ev\<in>set (fst (load_changes env g p b ff chs docs)).
      \<not> model_or_report ev \<and>
      (is_http_get ev \<longrightarrow> (\<exists>c\<in>set chs. selected ff c \<and> ev = Http_get (raw_file_url g p (new_path c) b) (get_gitlab_headers env)))"
proof (induction chs arbitrary: docs)
  case Nil
  then show ?case by simp
next
  case (Cons c chs)
  show ?case
  proof (cases "selected ff c")
    case False
    then have "load_changes env g p b ff (c # chs) docs = load_changes env g p b ff chs docs"
      by (auto simp: selected_iff Let_def)
    with Cons show ?thesis by auto
  next
    case True
    then have nf: "\<not> filtered_out ff (new_path c)" and nd: "\<not> deleted_file c"
      by (simp_all add: selected_iff)
    show ?thesis
    proof (cases "requests_get env (raw_file_url g p (new_path c) b) (get_gitlab_headers env)")
      case (Inl e)
      then show ?thesis using nf nd True by (simp add: fetch_raw_file_raised Let_def)
    next
      case (Inr r)
      then show ?thesis using nf nd True Cons[of "docs @ [\<lparr>page_content = combined_content (new_path c) (diff c)
             (if status_code r = 200 then resp_text r else error_sentinel (status_code r)), source = new_path c\<rparr>]"]
        by (auto simp add: fetch_raw_file_answered Let_def split: prod.splits)
    qed
  qed
qed

lemma fetch_mr_changes_ok:
  assumes "requests_get env (changes_url g p m) (get_gitlab_headers env) = Inr r"
      and "status_code r = 200" and "json r = Some data"
  shows "fetch_mr_changes env g p m =
           ([Print (Msg_fetching_metadata (changes_url g p m)),
             Http_get (changes_url g p m) (get_gitlab_headers env)], Inr data)"
  using assms by (simp add: fetch_mr_changes_def Let_def)

lemma fetch_mr_changes_rejected:
  assumes "requests_get env (changes_url g p m) (get_gitlab_headers env) = Inr r"
      and "status_code r \<noteq> 200"
  shows "fetch_mr_changes env g p m =
           ([Print (Msg_fetching_metadata (changes_url g p m)),
             Http_get (changes_url g p m) (get_gitlab_headers env)],
            Inl (Exception (''Failed to fetch MR: '' @ str_nat (status_code r) @ '' - '' @ resp_text r)))"
  using assms by (simp add: fetch_mr_changes_def Let_def)

lemma load_merge_request_data_ok:
  assumes "requests_get env (changes_url g p m) (get_gitlab_headers env) = Inr r"
      and "status_code r = 200" and "json r = Some data"
  shows "snd (load_merge_request_data env g p m ff) =
           snd (load_changes env g p (source_branch data) ff
                  (case changes data of None \<Rightarrow> [] | Some cs \<Rightarrow> cs) [])"
  using assms
  by (simp add: load_merge_request_data_def fetch_mr_changes_ok Let_def split: prod.splits)

lemma load_merge_request_data_events:
  "\<not> list_ex model_or_report (fst (load_merge_request_data env g p m ff))"
proof (cases "snd (fetch_mr_changes env g p m)")
  case (Inl e)
  have a: "\<not> list_ex model_or_report (fst (fetch_mr_changes env g p m))"
    by (simp add: fetch_mr_changes_def Let_def split: sum.splits option.splits)
  from Inl have "fst (load_merge_request_data env g p m ff) = fst (fetch_mr_changes env g p m)"
    by (cases "fetch_mr_changes env g p m") (simp add: load_merge_request_data_def)
  with a show ?thesis by simp
next
  case (Inr data)
  define chs where "chs = (case changes data of None \<Rightarrow> [] | Some cs \<Rightarrow> cs)"
  have a: "\<not> list_ex model_or_report (fst (fetch_mr_changes env g p m))"
    by (simp add: fetch_mr_changes_def Let_def split: sum.splits option.splits)
  have b: "\<not> list_ex model_or_report (fst (load_changes env g p (source_branch data) ff chs []))"
    using load_changes_events[of env g p "source_branch data" ff chs "[]"]
    by (simp add: list_ex_iff)
  from Inr have "fst (load_merge_request_data env g p m ff)
      = fst (fetch_mr_changes env g p m) @ Print (Msg_found_changes (length chs) m)
          # fst (load_changes env g p (source_branch data) ff chs [])"
    by (cases "fetch_mr_changes env g p m")
       (simp add: load_merge_request_data_def chs_def Let_def split: prod.splits)
  with a b show ?thesis by simp
qed

lemma str_in_middle: "str_in x (a @ x @ b)"
  by (simp add: str_in_def)

lemma combined_content_has_content: "str_in fc (combined_content f dc fc)"
proof -
  have "combined_content f dc fc =
          (''FILENAME: '' @ f @ [CHR 0x0A] @ ''--- BEGIN DIFF (CHANGES) ---'' @ [CHR 0x0A] @ dc
             @ [CHR 0x0A] @ ''--- END DIFF ---'' @ [CHR 0x0A, CHR 0x0A]
             @ ''--- BEGIN FULL FILE CONTENT (CONTEXT) ---'' @ [CHR 0x0A])
          @ fc @ ([CHR 0x0A] @ ''--- END FULL FILE CONTENT ---'' @ [CHR 0x0A])"
    unfolding combined_content_def by simp
  then show ?thesis by (simp only: str_in_middle)
qed

subsection \<open>The concrete runs\<close>

lemma demo_changes_url:
  "changes_url ''https://gitlab.example.com/'' ''team/app'' ''7'' =
     ''https://gitlab.example.com/api/v4/projects/team%2Fapp/merge_requests/7/changes''"
  by code_simp

lemma demo_raw_url_app:
  "raw_file_url ''https://gitlab.example.com/'' ''team/app'' ''src/app.py'' (Some ''dev'') =
     ''https://gitlab.example.com/api/v4/projects/team%2Fapp/repository/files/src%2Fapp.py/raw?ref=dev''"
  by code_simp

lemma demo_raw_url_ui:
  "raw_file_url ''https://gitlab.example.com/'' ''team/app'' ''web/ui.js'' (Some ''dev'') =
     ''https://gitlab.example.com/api/v4/projects/team%2Fapp/repository/files/web%2Fui.js/raw?ref=dev''"
  by code_simp

lemma demo_selected:
  "filter (selected (Some target_extensions)) demo_changes =
     [\<lparr>new_path = ''src/app.py'', deleted_file = False, diff = ''@@ -1 +1 @@''\<rparr>,
      \<lparr>new_path = ''web/ui.js'', deleted_file = False, diff = []\<rparr>]"
  by code_simp


lemma demo_get_changes:
  "requests_get demo_env (changes_url ''https://gitlab.example.com/'' ''team/app'' ''7'')
     (get_gitlab_headers demo_env)
   = Inr \<lparr>status_code = 200, resp_text = [],
           json = Some \<lparr>source_branch = Some ''dev'', changes = Some demo_changes\<rparr>\<rparr>"
  by (simp add: demo_changes_url demo_env_def table_env_def)

lemma demo_get_app:
  "requests_get demo_env
     (raw_file_url ''https://gitlab.example.com/'' ''team/app'' ''src/app.py'' (Some ''dev''))
     (get_gitlab_headers demo_env)
   = Inr \<lparr>status_code = 200, resp_text = ''print(1)'', json = None\<rparr>"
  by (simp add: demo_raw_url_app demo_env_def table_env_def)

lemma demo_get_ui:
  "requests_get demo_env
     (raw_file_url ''https://gitlab.example.com/'' ''team/app'' ''web/ui.js'' (Some ''dev''))
     (get_gitlab_headers demo_env)
   = Inr \<lparr>status_code = 404, resp_text = ''not found'', json = None\<rparr>"
  by (simp add: demo_raw_url_ui demo_env_def table_env_def)

lemma demo_selected_each:
  "selected (Some target_extensions) \<lparr>new_path = ''src/app.py'', deleted_file = False, diff = ''@@ -1 +1 @@''\<rparr>"
  "\<not> selected (Some target_extensions) \<lparr>new_path = ''old.py'', deleted_file = True, diff = ''@@ -1 +0,0 @@''\<rparr>"
  "\<not> selected (Some target_extensions) \<lparr>new_path = ''README.md'', deleted_file = False, diff = ''@@ -2 +2 @@''\<rparr>"
  "selected (Some target_extensions) \<lparr>new_path = ''web/ui.js'', deleted_file = False, diff = []\<rparr>"
  by code_simp+

lemma demo_answered:
  "\<forall>c\<in>set demo_changes. selected (Some target_extensions) c \<longrightarrow>
     (\<exists>r'. requests_get demo_env
              (raw_file_url ''https://gitlab.example.com/'' ''team/app'' (new_path c) (Some ''dev''))
              (get_gitlab_headers demo_env) = Inr r')"
  by (simp add: demo_changes_def demo_selected_each demo_get_app demo_get_ui)

lemma str_nat_404: "str_nat 404 = ''404''"
  by code_simp

subsection \<open>Selection and order of the units\<close>

text \<open>
  C3.  When the metadata request is answered with status 200 and a decodable body, and
  every raw-file request the assembler issues is answered (with whatever status), the
  assembler returns, and the source paths of its units are, in order, the new paths of the
  changes that are not marked deleted and, a non-empty filter being given, end with one of
  its suffixes.  So a deleted change gives no unit, there is one unit per selected change,
  and with no filter or an empty one the units are those of all changes not deleted.
\<close>

theorem assembler_paths_in_order:
  assumes "requests_get env (changes_url g p m) (get_gitlab_headers env) = Inr r"
      and "status_code r = 200"
      and "json r = Some data"
      and "chs = (case changes data of None \<Rightarrow> [] | Some cs \<Rightarrow> cs)"
      and "\<forall>c\<in>set chs. selected ff c \<longrightarrow>
             (\<exists>r'. requests_get env (raw_file_url g p (new_path c) (source_branch data))
                     (get_gitlab_headers env) = Inr r')"
  shows "\<exists>docs. snd (load_merge_request_data env g p m ff) = Inr docs
           \<and> map source docs = map new_path (filter (selected ff) chs)
           \<and> length docs = length (filter (selected ff) chs)
           \<and> (ff = None \<or> ff = Some [] \<longrightarrow>
                map source docs = map new_path (filter (\<lambda>c. \<not> deleted_file c) chs))"
proof -
  have eq: "snd (load_merge_request_data env g p m ff)
              = snd (load_changes env g p (source_branch data) ff chs [])"
    using assms(1-4) by (simp add: load_merge_request_data_ok)
  from load_changes_returns[OF assms(5)] obtain docs where
    docs: "snd (load_changes env g p (source_branch data) ff chs []) = Inr docs" by blast
  from load_changes_units[OF docs]
  have rel: "list_all2 (unit_for env g p (source_branch data)) docs (filter (selected ff) chs)"
    by simp
  have src: "map source docs = map new_path (filter (selected ff) chs)"
    using rel by (induction rule: list_all2_induct) (simp_all add: unit_for_def)
  have len: "length docs = length (filter (selected ff) chs)"
    using rel by (rule list_all2_lengthD)
  have nofilter: "selected ff = (\<lambda>c. \<not> deleted_file c)" if "ff = None \<or> ff = Some []"
    using that by (auto simp: selected_def fun_eq_iff)
  show ?thesis using eq docs src len nofilter by auto
qed

theorem assembler_paths_in_order_witness:
  "\<exists>docs. snd (load_merge_request_data demo_env ''https://gitlab.example.com/'' ''team/app'' ''7''
                  (Some target_extensions)) = Inr docs
         \<and> map source docs = [''src/app.py'', ''web/ui.js'']
         \<and> length docs = 2"
  using assembler_paths_in_order[where chs = demo_changes and ff = "Some target_extensions", OF demo_get_changes]
        demo_answered
  by (auto simp: demo_selected)

subsection \<open>Composition of a unit\<close>

lemma unit_for_body:
  assumes "unit_for env g p b d c"
  shows "\<exists>r'. requests_get env (raw_file_url g p (new_path c) b) (get_gitlab_headers env) = Inr r'
                  \<and> page_content d =
                      ''FILENAME: '' @ new_path c @ [CHR 0x0A]
                      @ ''--- BEGIN DIFF (CHANGES) ---'' @ [CHR 0x0A] @ diff c @ [CHR 0x0A]
                      @ ''--- END DIFF ---'' @ [CHR 0x0A, CHR 0x0A]
                      @ ''--- BEGIN FULL FILE CONTENT (CONTEXT) ---'' @ [CHR 0x0A]
                      @ (if status_code r' = 200 then resp_text r'
                         else ''[Error fetching file content: '' @ str_nat (status_code r') @ '']'')
                      @ [CHR 0x0A] @ ''--- END FULL FILE CONTENT ---'' @ [CHR 0x0A]"
proof -
  from assms obtain r where r: "requests_get env (raw_file_url g p (new_path c) b) (get_gitlab_headers env) = Inr r"
    and pc: "page_content d = combined_content (new_path c) (diff c)
             (if status_code r = 200 then resp_text r else error_sentinel (status_code r))"
    unfolding unit_for_def by blast
  have "combined_content f dc fc =
          ''FILENAME: '' @ f @ [CHR 0x0A]
                      @ ''--- BEGIN DIFF (CHANGES) ---'' @ [CHR 0x0A] @ dc @ [CHR 0x0A]
                      @ ''--- END DIFF ---'' @ [CHR 0x0A, CHR 0x0A]
                      @ ''--- BEGIN FULL FILE CONTENT (CONTEXT) ---'' @ [CHR 0x0A]
                      @ fc @ [CHR 0x0A] @ ''--- END FULL FILE CONTENT ---'' @ [CHR 0x0A]" for f dc fc
    unfolding combined_content_def by simp
  with r pc show ?thesis
    unfolding error_sentinel_def by (intro exI[of _ r]) simp
qed

text \<open>
  C6.  Under the same conditions every unit is the one of the selected change at its
  position, and its body is exactly: the line \<^verbatim>\<open>FILENAME:\<close> with the new path; the change's
  diff between the lines \<^verbatim>\<open>--- BEGIN DIFF (CHANGES) ---\<close> and \<^verbatim>\<open>--- END DIFF ---\<close> (an empty diff
  leaves an empty line there); an empty line; and, between the lines
  \<^verbatim>\<open>--- BEGIN FULL FILE CONTENT (CONTEXT) ---\<close> and \<^verbatim>\<open>--- END FULL FILE CONTENT ---\<close>, the body
  of the raw-file response when its status is 200 and the error placeholder otherwise.
\<close>

theorem unit_body_composed:
  assumes "requests_get env (changes_url g p m) (get_gitlab_headers env) = Inr r"
      and "status_code r = 200"
      and "json r = Some data"
      and "chs = (case changes data of None \<Rightarrow> [] | Some cs \<Rightarrow> cs)"
      and "\<forall>c\<in>set chs. selected ff c \<longrightarrow>
             (\<exists>r'. requests_get env (raw_file_url g p (new_path c) (source_branch data))
                     (get_gitlab_headers env) = Inr r')"
  shows "\<exists>docs. snd (load_merge_request_data env g p m ff) = Inr docs
           \<and> list_all2
               (\<lambda>d c. \<exists>r'. requests_get env (raw_file_url g p (new_path c) (source_branch data))
                               (get_gitlab_headers env) = Inr r'
                  \<and> page_content d =
                      ''FILENAME: '' @ new_path c @ [CHR 0x0A]
                      @ ''--- BEGIN DIFF (CHANGES) ---'' @ [CHR 0x0A] @ diff c @ [CHR 0x0A]
                      @ ''--- END DIFF ---'' @ [CHR 0x0A, CHR 0x0A]
                      @ ''--- BEGIN FULL FILE CONTENT (CONTEXT) ---'' @ [CHR 0x0A]
                      @ (if status_code r' = 200 then resp_text r'
                         else ''[Error fetching file content: '' @ str_nat (status_code r') @ '']'')
                      @ [CHR 0x0A] @ ''--- END FULL FILE CONTENT ---'' @ [CHR 0x0A])
               docs (filter (selected ff) chs)"
proof -
  have eq: "snd (load_merge_request_data env g p m ff)
              = snd (load_changes env g p (source_branch data) ff chs [])"
    using assms(1-4) by (simp add: load_merge_request_data_ok)
  from load_changes_returns[OF assms(5)] obtain docs where
    docs: "snd (load_changes env g p (source_branch data) ff chs []) = Inr docs" by blast
  from load_changes_units[OF docs]
  have rel: "list_all2 (unit_for env g p (source_branch data)) docs (filter (selected ff) chs)"
    by simp
  show ?thesis
  proof (intro exI[of _ docs] conjI)
    show "snd (load_merge_request_data env g p m ff) = Inr docs"
      using eq docs by simp
  next
    show "list_all2
               (\<lambda>d c. \<exists>r'. requests_get env (raw_file_url g p (new_path c) (source_branch data))
                               (get_gitlab_headers env) = Inr r'
                  \<and> page_content d =
                      ''FILENAME: '' @ new_path c @ [CHR 0x0A]
                      @ ''--- BEGIN DIFF (CHANGES) ---'' @ [CHR 0x0A] @ diff c @ [CHR 0x0A]
                      @ ''--- END DIFF ---'' @ [CHR 0x0A, CHR 0x0A]
                      @ ''--- BEGIN FULL FILE CONTENT (CONTEXT) ---'' @ [CHR 0x0A]
                      @ (if status_code r' = 200 then resp_text r'
                         else ''[Error fetching file content: '' @ str_nat (status_code r') @ '']'')
                      @ [CHR 0x0A] @ ''--- END FULL FILE CONTENT ---'' @ [CHR 0x0A])
               docs (filter (selected ff) chs)"
      using rel by (rule list_all2_mono) (rule unit_for_body)
  qed
qed

theorem unit_body_composed_witness:
  "\<exists>docs. snd (load_merge_request_data demo_env ''https://gitlab.example.com/'' ''team/app'' ''7''
                  (Some target_extensions)) = Inr docs
         \<and> list_all2
               (\<lambda>d c. \<exists>r'. requests_get demo_env (raw_file_url ''https://gitlab.example.com/'' ''team/app'' (new_path c) (Some ''dev''))
                               (get_gitlab_headers demo_env) = Inr r'
                  \<and> page_content d =
                      ''FILENAME: '' @ new_path c @ [CHR 0x0A]
                      @ ''--- BEGIN DIFF (CHANGES) ---'' @ [CHR 0x0A] @ diff c @ [CHR 0x0A]
                      @ ''--- END DIFF ---'' @ [CHR 0x0A, CHR 0x0A]
                      @ ''--- BEGIN FULL FILE CONTENT (CONTEXT) ---'' @ [CHR 0x0A]
                      @ (if status_code r' = 200 then resp_text r'
                         else ''[Error fetching file content: '' @ str_nat (status_code r') @ '']'')
                      @ [CHR 0x0A] @ ''--- END FULL FILE CONTENT ---'' @ [CHR 0x0A])
               docs 
     [\<lparr>new_path = ''src/app.py'', deleted_file = False, diff = ''@@ -1 +1 @@''\<rparr>,
      \<lparr>new_path = ''web/ui.js'', deleted_file = False, diff = []\<rparr>]"
  using unit_body_composed[where chs = demo_changes and ff = "Some target_extensions", OF demo_get_changes]
        demo_answered
  by (simp add: demo_selected)

subsection \<open>Failures of the remote platform\<close>

text \<open>
  C4, as amended.  Whatever status the raw-file request is answered with,
  \<^verbatim>\<open>fetch_raw_file\<close> returns and does not raise: the body of the response when the status is
  exactly 200, and for every other status \<open>s\<close>, the other statuses from 200 to 299
  included, the text \<^verbatim>\<open>[Error fetching file content: s]\<close>.  When that happens for the file
  of a selected change and the other raw-file requests are answered, the assembler still
  returns one unit per selected change, and the unit of that file contains the placeholder.
\<close>

theorem fetch_raw_file_never_raises:
  assumes "requests_get env (raw_file_url g p f b) (get_gitlab_headers env) = Inr r"
  shows "snd (fetch_raw_file env g p f b)
           = Inr (if status_code r = 200 then resp_text r
                  else ''[Error fetching file content: '' @ str_nat (status_code r) @ '']'')
       \<and> (status_code r \<noteq> 200 \<and> c0 \<in> set chs \<and> selected ff c0 \<and> new_path c0 = f
            \<and> (\<forall>c\<in>set chs. selected ff c \<longrightarrow>
                  (\<exists>r'. requests_get env (raw_file_url g p (new_path c) b)
                          (get_gitlab_headers env) = Inr r'))
          \<longrightarrow> (\<exists>docs. snd (load_changes env g p b ff chs []) = Inr docs
                 \<and> length docs = length (filter (selected ff) chs)
                 \<and> (\<exists>d\<in>set docs. source d = f
                       \<and> str_in (''[Error fetching file content: '' @ str_nat (status_code r) @ '']'')
                                (page_content d))))"
proof (intro conjI impI)
  show "snd (fetch_raw_file env g p f b)
           = Inr (if status_code r = 200 then resp_text r
                  else ''[Error fetching file content: '' @ str_nat (status_code r) @ '']'')"
    using assms by (simp add: fetch_raw_file_answered error_sentinel_def)
next
  assume h: "status_code r \<noteq> 200 \<and> c0 \<in> set chs \<and> selected ff c0 \<and> new_path c0 = f
            \<and> (\<forall>c\<in>set chs. selected ff c \<longrightarrow>
                  (\<exists>r'. requests_get env (raw_file_url g p (new_path c) b)
                          (get_gitlab_headers env) = Inr r'))"
  then have ans: "\<forall>c\<in>set chs. selected ff c \<longrightarrow>
                  (\<exists>r'. requests_get env (raw_file_url g p (new_path c) b)
                          (get_gitlab_headers env) = Inr r')" by blast
  from load_changes_returns[OF ans] obtain docs where
    docs: "snd (load_changes env g p b ff chs []) = Inr docs" by blast
  from load_changes_units[OF docs]
  have rel: "list_all2 (unit_for env g p b) docs (filter (selected ff) chs)" by simp
  have len: "length docs = length (filter (selected ff) chs)"
    using rel by (rule list_all2_lengthD)
  from h have "c0 \<in> set (filter (selected ff) chs)" by simp
  then obtain i where i: "i < length (filter (selected ff) chs)" "filter (selected ff) chs ! i = c0"
    by (metis in_set_conv_nth)
  with rel len have u: "unit_for env g p b (docs ! i) c0"
    by (auto simp: list_all2_conv_all_nth)
  have di: "docs ! i \<in> set docs" using i len by simp
  from u h assms have pc: "page_content (docs ! i)
      = combined_content f (diff c0) (error_sentinel (status_code r))"
    by (auto simp: unit_for_def)
  have "str_in (error_sentinel (status_code r)) (page_content (docs ! i))"
    unfolding pc by (rule combined_content_has_content)
  moreover have "source (docs ! i) = f" using u h by (simp add: unit_for_def)
  ultimately show "\<exists>docs. snd (load_changes env g p b ff chs []) = Inr docs
                 \<and> length docs = length (filter (selected ff) chs)
                 \<and> (\<exists>d\<in>set docs. source d = f
                       \<and> str_in (''[Error fetching file content: '' @ str_nat (status_code r) @ '']'')
                                (page_content d))"
    using docs len di unfolding error_sentinel_def by blast
qed

theorem fetch_raw_file_never_raises_witness:
  "snd (fetch_raw_file demo_env ''https://gitlab.example.com/'' ''team/app'' ''web/ui.js'' (Some ''dev''))
     = Inr ''[Error fetching file content: 404]''
   \<and> (\<exists>docs. snd (load_changes demo_env ''https://gitlab.example.com/'' ''team/app'' (Some ''dev'')
                     (Some target_extensions) demo_changes []) = Inr docs
          \<and> length docs = 2
          \<and> (\<exists>d\<in>set docs. source d = ''web/ui.js''
                \<and> str_in ''[Error fetching file content: 404]'' (page_content d)))"
proof -
  have c0: "\<lparr>new_path = ''web/ui.js'', deleted_file = False, diff = []\<rparr> \<in> set demo_changes"
    by (simp add: demo_changes_def)
  show ?thesis
    using fetch_raw_file_never_raises[OF demo_get_ui,
            where ?c0.0 = "\<lparr>new_path = ''web/ui.js'', deleted_file = False, diff = []\<rparr>"
              and chs = demo_changes and ff = "Some target_extensions"]
          c0 demo_answered demo_selected_each(4)
    by (auto simp: demo_selected str_nat_404)
qed

text \<open>
  The claim as it was stated fails at a success status other than 200: the response 203
  carries a body, and the result is the error placeholder, not that body.
\<close>

theorem fetch_raw_file_2xx_counterexample:
  "(200::nat) \<le> 203 \<and> (203::nat) < 300
   \<and> requests_get
        (table_env
           [(''https://gitlab.example.com/api/v4/projects/team%2Fapp/repository/files/src%2Fapp.py/raw?ref=dev'',
             \<lparr>status_code = 203, resp_text = ''print(1)'', json = None\<rparr>)] [])
        (raw_file_url ''https://gitlab.example.com/'' ''team/app'' ''src/app.py'' (Some ''dev''))
        [(''PRIVATE-TOKEN'', ''secret'')]
       = Inr \<lparr>status_code = 203, resp_text = ''print(1)'', json = None\<rparr>
   \<and> snd (fetch_raw_file
            (table_env
               [(''https://gitlab.example.com/api/v4/projects/team%2Fapp/repository/files/src%2Fapp.py/raw?ref=dev'',
                 \<lparr>status_code = 203, resp_text = ''print(1)'', json = None\<rparr>)] [])
            ''https://gitlab.example.com/'' ''team/app'' ''src/app.py'' (Some ''dev''))
       = Inr ''[Error fetching file content: 203]''"
  by code_simp

text \<open>
  C5.  When the metadata request is answered with a status other than 200 (every
  non-success status is one), \<^verbatim>\<open>fetch_mr_changes\<close> raises an exception whose message carries
  the status and the body of the response; the exception leaves \<^verbatim>\<open>run_mr_review\<close>; the
  metadata request is the only request the run has issued, so it is not retried and no
  raw file is fetched; and the model is not invoked and no report is produced.
\<close>

theorem metadata_failure_aborts:
  assumes "requests_get env (changes_url (arg_gitlab_url a) (arg_project_id a) (arg_mr_id a))
             (get_gitlab_headers env) = Inr r"
      and "status_code r \<noteq> 200"
  shows "snd (fetch_mr_changes env (arg_gitlab_url a) (arg_project_id a) (arg_mr_id a))
           = Inl (Exception (''Failed to fetch MR: '' @ str_nat (status_code r) @ '' - '' @ resp_text r))
       \<and> snd (run_mr_review env a)
           = Inl (Exception (''Failed to fetch MR: '' @ str_nat (status_code r) @ '' - '' @ resp_text r))
       \<and> filter is_http_get (fst (run_mr_review env a))
           = [Http_get (changes_url (arg_gitlab_url a) (arg_project_id a) (arg_mr_id a))
                (get_gitlab_headers env)]
       \<and> \<not> list_ex model_or_report (fst (run_mr_review env a))"
proof -
  let ?u = "changes_url (arg_gitlab_url a) (arg_project_id a) (arg_mr_id a)"
  let ?e = "Exception (''Failed to fetch MR: '' @ str_nat (status_code r) @ '' - '' @ resp_text r)"
  have f: "fetch_mr_changes env (arg_gitlab_url a) (arg_project_id a) (arg_mr_id a)
             = ([Print (Msg_fetching_metadata ?u), Http_get ?u (get_gitlab_headers env)], Inl ?e)"
    using assms by (rule fetch_mr_changes_rejected)
  have l: "load_merge_request_data env (arg_gitlab_url a) (arg_project_id a) (arg_mr_id a)
             (Some target_extensions)
             = ([Print (Msg_fetching_metadata ?u), Http_get ?u (get_gitlab_headers env)], Inl ?e)"
    by (simp add: load_merge_request_data_def f)
  have r: "run_mr_review env a
             = ([Print (Msg_starting (arg_mr_id a) (arg_project_id a)),
                 Print (Msg_fetching_metadata ?u), Http_get ?u (get_gitlab_headers env)], Inl ?e)"
    by (simp add: run_mr_review_def l)
  show ?thesis by (simp add: f r)
qed

theorem metadata_failure_aborts_witness:
  "snd (run_mr_review rejecting_env demo_args)
     = Inl (Exception ''Failed to fetch MR: 401 - 401 Unauthorized'')
   \<and> filter is_http_get (fst (run_mr_review rejecting_env demo_args))
       = [Http_get ''https://gitlab.example.com/api/v4/projects/team%2Fapp/merge_requests/7/changes''
            [(''PRIVATE-TOKEN'', ''secret'')]]"
proof -
  have s: "str_nat 401 = ''401''" by code_simp
  have g: "requests_get rejecting_env
             (changes_url (arg_gitlab_url demo_args) (arg_project_id demo_args) (arg_mr_id demo_args))
             (get_gitlab_headers rejecting_env)
           = Inr \<lparr>status_code = 401, resp_text = ''401 Unauthorized'', json = None\<rparr>"
    by (simp add: demo_args_def demo_changes_url rejecting_env_def table_env_def)
  have h: "get_gitlab_headers rejecting_env = [(''PRIVATE-TOKEN'', ''secret'')]"
    by (simp add: get_gitlab_headers_def rejecting_env_def table_env_def)
  show ?thesis
    using metadata_failure_aborts[OF g]
    by (simp add: s h demo_args_def demo_changes_url)
qed

text \<open>
  C8.  When the assembler returns no unit, \<^verbatim>\<open>run_mr_review\<close> returns normally, the last
  thing it does is to print that no matching files were found, and the run contains no
  invocation of the model, no verdict or report printed and no report file written.
\<close>

theorem no_units_short_circuits:
  assumes "snd (load_merge_request_data env (arg_gitlab_url a) (arg_project_id a) (arg_mr_id a)
                  (Some target_extensions)) = Inr []"
  shows "snd (run_mr_review env a) = Inr ()
       \<and> last (fst (run_mr_review env a)) = Print Msg_no_matching_files
       \<and> \<not> list_ex model_or_report (fst (run_mr_review env a))"
proof -
  obtain evs where l: "load_merge_request_data env (arg_gitlab_url a) (arg_project_id a) (arg_mr_id a)
                  (Some target_extensions) = (evs, Inr [])"
    using assms by (metis prod.collapse)
  have "\<not> list_ex model_or_report evs"
    using load_merge_request_data_events[of env "arg_gitlab_url a" "arg_project_id a" "arg_mr_id a"
            "Some target_extensions"] l by simp
  moreover have "run_mr_review env a
      = (Print (Msg_starting (arg_mr_id a) (arg_project_id a)) # evs @ [Print Msg_no_matching_files],
         Inr ())"
    by (simp add: run_mr_review_def l)
  ultimately show ?thesis by simp
qed

theorem no_units_short_circuits_witness:
  "snd (run_mr_review docs_only_env demo_args) = Inr ()
   \<and> last (fst (run_mr_review docs_only_env demo_args)) = Print Msg_no_matching_files
   \<and> \<not> list_ex model_or_report (fst (run_mr_review docs_only_env demo_args))"
proof -
  have l: "snd (load_merge_request_data docs_only_env (arg_gitlab_url demo_args)
                  (arg_project_id demo_args) (arg_mr_id demo_args) (Some target_extensions)) = Inr []"
    by code_simp
  show ?thesis by (rule no_units_short_circuits[OF l])
qed

section \<open>Properties of the verdict extractor\<close>

text \<open>
  On ASCII the upper-case table changes the small letters only; two entries beyond ASCII
  that produce ASCII capitals are the sharp s and the long s.
\<close>

lemma upper_cp_ascii: "c < 128 \<Longrightarrow> upper_cp c = (if 97 \<le> c \<and> c \<le> 122 then [c - 32] else [c])"
  by (auto simp: upper_cp_def special_upper_def upper_runs_def)

lemma upper_cp_sharp_s: "upper_cp 223 = [83, 83]"
  by (simp add: upper_cp_def special_upper_def upper_runs_def)

lemma upper_cp_long_s: "upper_cp 383 = [83]"
  by (simp add: upper_cp_def special_upper_def upper_runs_def)

lemmas run_simps =
  str_def parse_markdown_response_def match_here_def match_group_def ignorecase_class_def
  isspace_def strip_def upper_def upper_cp_ascii str_in_def sublist_code prefix_code

lemma str_literals:
  "str ''FINAL_STATUS:'' = [70, 73, 78, 65, 76, 95, 83, 84, 65, 84, 85, 83, 58]"
  "str ''PASSED'' = [80, 65, 83, 83, 69, 68]"
  "str ''FAILED'' = [70, 65, 73, 76, 69, 68]"
  by (simp_all add: str_def)

lemma length_str: "length (str s) = length s"
  by (simp add: str_def)

lemma ci_equal_length: "ci_equal s lit \<Longrightarrow> length s = length lit"
  unfolding ci_equal_def by (rule list_all2_lengthD)

lemma ci_equal_Nil: "ci_equal [] lit \<longleftrightarrow> lit = []"
  by (simp add: ci_equal_def)

lemma ci_equal_Cons:
  "ci_equal (c # cs) (p # ps) \<longleftrightarrow> c \<in> set (ignorecase_class p) \<and> ci_equal cs ps"
  by (simp add: ci_equal_def)

lemma match_literal_Some:
  "match_literal lit s = Some r \<longleftrightarrow> (\<exists>p. s = p @ r \<and> ci_equal p lit)"
proof (induction lit s rule: match_literal.induct)
  case (1 s)
  then show ?case by (auto simp: ci_equal_def)
next
  case (2 p ps)
  then show ?case by (auto simp: ci_equal_def)
next
  case (3 p ps c cs)
  show ?case
  proof (cases "c \<in> set (ignorecase_class p)")
    case True
    show ?thesis
    proof
      assume "match_literal (p # ps) (c # cs) = Some r"
      with True 3 obtain q where "cs = q @ r" "ci_equal q ps" by auto
      with True show "\<exists>pa. c # cs = pa @ r \<and> ci_equal pa (p # ps)"
        by (intro exI[of _ "c # q"]) (simp add: ci_equal_Cons)
    next
      assume "\<exists>pa. c # cs = pa @ r \<and> ci_equal pa (p # ps)"
      then obtain pa where pa: "c # cs = pa @ r" "ci_equal pa (p # ps)" by blast
      then obtain q where q: "pa = c # q"
        by (cases pa) (auto simp: ci_equal_def)
      with pa have "cs = q @ r" "ci_equal q ps" by (auto simp: ci_equal_Cons)
      with True 3 show "match_literal (p # ps) (c # cs) = Some r" by auto
    qed
  next
    case False
    have "\<not> (\<exists>pa. c # cs = pa @ r \<and> ci_equal pa (p # ps))"
    proof
      assume "\<exists>pa. c # cs = pa @ r \<and> ci_equal pa (p # ps)"
      then obtain pa where pa: "c # cs = pa @ r" "ci_equal pa (p # ps)" by blast
      then obtain q where q: "pa = c # q"
        by (cases pa) (auto simp: ci_equal_def)
      with pa False show False by (simp add: ci_equal_Cons)
    qed
    with False show ?thesis by simp
  qed
qed

lemma upper_append: "upper (a @ b) = upper a @ upper b"
  by (simp add: upper_def)

lemma status_word_length:
  assumes "ci_equal g (str ''PASSED'') \<or> ci_equal g (str ''FAILED'')"
  shows "length g = 6"
  using assms ci_equal_length[of g] by (auto simp: length_str)

lemma status_word_head:
  assumes "ci_equal g (str ''PASSED'') \<or> ci_equal g (str ''FAILED'')"
  shows "\<exists>c cs. g = c # cs \<and> \<not> isspace c"
proof -
  from assms obtain c cs where g: "g = c # cs"
    by (cases g) (auto simp: ci_equal_Nil str_literals)
  with assms have "c \<in> set (ignorecase_class 80) \<or> c \<in> set (ignorecase_class 70)"
    by (auto simp: str_literals ci_equal_Cons)
  then have "\<not> isspace c" by (auto simp: ignorecase_class_def isspace_def)
  with g show ?thesis by blast
qed

lemma upper_passed:
  assumes "ci_equal w (str ''PASSED'')"
  shows "upper w = str ''PASSED''"
proof -
  from assms obtain c1 c2 c3 c4 c5 c6 where w: "w = [c1, c2, c3, c4, c5, c6]"
    and c: "c1 \<in> set (ignorecase_class 80)" "c2 \<in> set (ignorecase_class 65)"
           "c3 \<in> set (ignorecase_class 83)" "c4 \<in> set (ignorecase_class 83)"
           "c5 \<in> set (ignorecase_class 69)" "c6 \<in> set (ignorecase_class 68)"
    unfolding str_literals ci_equal_def by (auto simp: list_all2_Cons2)
  have "upper_cp c1 = [80]" using c(1) by (auto simp: ignorecase_class_def upper_cp_ascii)
  moreover have "upper_cp c2 = [65]" using c(2) by (auto simp: ignorecase_class_def upper_cp_ascii)
  moreover have "upper_cp c3 = [83]" using c(3) by (auto simp: ignorecase_class_def upper_cp_ascii upper_cp_long_s)
  moreover have "upper_cp c4 = [83]" using c(4) by (auto simp: ignorecase_class_def upper_cp_ascii upper_cp_long_s)
  moreover have "upper_cp c5 = [69]" using c(5) by (auto simp: ignorecase_class_def upper_cp_ascii)
  moreover have "upper_cp c6 = [68]" using c(6) by (auto simp: ignorecase_class_def upper_cp_ascii)
  ultimately show ?thesis by (simp add: w upper_def str_literals)
qed

lemma upper_failed:
  assumes "ci_equal w (str ''FAILED'')"
  shows "upper w \<noteq> str ''PASSED''"
proof -
  from assms obtain c cs where w: "w = c # cs" and c: "c \<in> set (ignorecase_class 70)"
    unfolding str_literals ci_equal_def by (auto simp: list_all2_Cons2)
  have "upper_cp c = [70]" using c by (auto simp: ignorecase_class_def upper_cp_ascii)
  then show ?thesis by (simp add: w upper_def str_literals)
qed

lemma passed_not_failed:
  "ci_equal w (str ''PASSED'') \<Longrightarrow> \<not> ci_equal w (str ''FAILED'')"
  using upper_passed upper_failed by blast

lemma match_group_Some:
  "match_group s = Some g \<longleftrightarrow>
     (\<exists>r. s = g @ r \<and> (ci_equal g (str ''PASSED'') \<or> ci_equal g (str ''FAILED'')))"
proof
  assume a: "match_group s = Some g"
  then have g: "g = take 6 s" by (auto simp: match_group_def split: if_splits)
  from a have "match_literal (str ''PASSED'') s \<noteq> None \<or> match_literal (str ''FAILED'') s \<noteq> None"
    by (auto simp: match_group_def split: if_splits)
  then obtain p r where pr: "s = p @ r" "ci_equal p (str ''PASSED'') \<or> ci_equal p (str ''FAILED'')"
    by (auto simp: match_literal_Some)
  then have "length p = 6" by (simp add: status_word_length)
  with pr g have "g = p" by simp
  with pr show "\<exists>r. s = g @ r \<and> (ci_equal g (str ''PASSED'') \<or> ci_equal g (str ''FAILED''))" by blast
next
  assume "\<exists>r. s = g @ r \<and> (ci_equal g (str ''PASSED'') \<or> ci_equal g (str ''FAILED''))"
  then obtain r where r: "s = g @ r" "ci_equal g (str ''PASSED'') \<or> ci_equal g (str ''FAILED'')" by blast
  then have len: "length g = 6" by (simp add: status_word_length)
  from r have "match_literal (str ''PASSED'') s = Some r \<or> match_literal (str ''FAILED'') s = Some r"
    by (auto simp: match_literal_Some)
  with r len show "match_group s = Some g"
    by (auto simp: match_group_def)
qed

lemma match_group_blank: "isspace c \<Longrightarrow> match_group (c # s) = None"
proof (rule ccontr)
  assume c: "isspace c" and "match_group (c # s) \<noteq> None"
  then obtain g where "match_group (c # s) = Some g" by blast
  then obtain r where r: "c # s = g @ r" "ci_equal g (str ''PASSED'') \<or> ci_equal g (str ''FAILED'')"
    unfolding match_group_Some by blast
  from status_word_head[OF r(2)] obtain d ds where "g = d # ds" "\<not> isspace d" by blast
  with r c show False by simp
qed

lemma match_blanks_group_greedy:
  assumes "k \<le> length (takeWhile isspace s)"
  shows "match_blanks_group k s = map_option (Pair k) (match_group (drop k s))"
  using assms
proof (induction k)
  case 0
  then show ?case by simp
next
  case (Suc k)
  then have k: "k < length (takeWhile isspace s)" by simp
  then have ks: "k < length s" using length_takeWhile_le[of isspace s] by (rule less_le_trans)
  have "isspace (s ! k)" using k by (metis nth_mem set_takeWhileD takeWhile_nth)
  then have none: "match_group (drop k s) = None"
    using ks by (simp add: Cons_nth_drop_Suc[symmetric] match_group_blank)
  show ?case
  proof (cases "match_group (drop (Suc k) s)")
    case None
    with Suc k none show ?thesis by simp
  next
    case (Some g)
    then show ?thesis by simp
  qed
qed

lemma match_here_eq:
  "match_here s =
     (case match_literal (str ''FINAL_STATUS:'') s of
        None \<Rightarrow> None
      | Some r \<Rightarrow>
          (case match_group (dropWhile isspace r) of
             None \<Rightarrow> None
           | Some g \<Rightarrow> Some (take (13 + length (takeWhile isspace r) + 6) s, g)))"
  by (simp add: match_here_def match_blanks_group_greedy dropWhile_eq_drop
           split: option.splits)

lemma takeWhile_blanks:
  assumes "list_all isspace ws" and "\<not> isspace c"
  shows "takeWhile isspace (ws @ c # r) = ws" and "dropWhile isspace (ws @ c # r) = c # r"
  using assms by (simp_all add: list_all_iff takeWhile_append2 dropWhile_append2)

lemma match_here_Some:
  "match_here s = Some (m, g) \<longleftrightarrow>
     (\<exists>p ws rest. s = p @ ws @ g @ rest \<and> m = p @ ws @ g \<and> marker_parts p ws g)"
proof
  assume a: "match_here s = Some (m, g)"
  then obtain r where r: "match_literal (str ''FINAL_STATUS:'') s = Some r"
    and mg: "match_group (dropWhile isspace r) = Some g"
    and m: "m = take (13 + length (takeWhile isspace r) + 6) s"
    by (auto simp: match_here_eq split: option.splits)
  from r obtain p where p: "s = p @ r" "ci_equal p (str ''FINAL_STATUS:'')"
    by (auto simp: match_literal_Some)
  then have lp: "length p = 13" using ci_equal_length[of p] by (simp add: length_str)
  from mg obtain rest where rest: "dropWhile isspace r = g @ rest"
    "ci_equal g (str ''PASSED'') \<or> ci_equal g (str ''FAILED'')"
    unfolding match_group_Some by blast
  then have lg: "length g = 6" by (simp add: status_word_length)
  define ws where "ws = takeWhile isspace r"
  have r_eq: "r = ws @ g @ rest"
    using rest(1) takeWhile_dropWhile_id[of isspace r] by (simp add: ws_def)
  have ws: "list_all isspace ws"
    by (simp add: ws_def list_all_iff) (meson set_takeWhileD)
  have m': "m = take (13 + length ws + 6) s" using m by (simp add: ws_def)
  have s_eq: "s = p @ ws @ g @ rest" using p(1) r_eq by simp
  have "m = p @ ws @ g" unfolding m' s_eq using lp lg by simp
  with s_eq p(2) ws rest(2) show "\<exists>p ws rest. s = p @ ws @ g @ rest \<and> m = p @ ws @ g \<and> marker_parts p ws g"
    unfolding marker_parts_def by blast
next
  assume "\<exists>p ws rest. s = p @ ws @ g @ rest \<and> m = p @ ws @ g \<and> marker_parts p ws g"
  then obtain p ws rest where s: "s = p @ ws @ g @ rest" and m: "m = p @ ws @ g"
    and p: "ci_equal p (str ''FINAL_STATUS:'')" and ws: "list_all isspace ws"
    and g: "ci_equal g (str ''PASSED'') \<or> ci_equal g (str ''FAILED'')"
    unfolding marker_parts_def by blast
  have lp: "length p = 13" using ci_equal_length[OF p] by (simp add: length_str)
  have lg: "length g = 6" using g by (simp add: status_word_length)
  from status_word_head[OF g] obtain c cs where c: "g = c # cs" "\<not> isspace c" by blast
  have ml: "match_literal (str ''FINAL_STATUS:'') s = Some (ws @ g @ rest)"
    unfolding match_literal_Some using s p by auto
  have tw: "takeWhile isspace (ws @ g @ rest) = ws" "dropWhile isspace (ws @ g @ rest) = g @ rest"
    using takeWhile_blanks[OF ws c(2), of "cs @ rest"] c(1) by simp_all
  have mgp: "match_group (g @ rest) = Some g"
    unfolding match_group_Some using g by blast
  show "match_here s = Some (m, g)"
    unfolding match_here_eq ml using tw mgp s m lp lg by simp
qed

lemma marker_here_iff: "marker_here s \<longleftrightarrow> (\<exists>m g. match_here s = Some (m, g))"
proof
  assume a: "marker_here s"
  define r where "r = drop 13 s"
  define p where "p = take 13 s"
  define ws where "ws = takeWhile isspace r"
  define g where "g = take 6 (dropWhile isspace r)"
  from a have mp: "marker_parts p ws g"
    by (simp add: marker_here_def Let_def p_def ws_def g_def r_def)
  have "s = p @ r" by (simp add: p_def r_def)
  moreover have "r = ws @ dropWhile isspace r" by (simp add: ws_def)
  moreover have "dropWhile isspace r = g @ drop 6 (dropWhile isspace r)" by (simp add: g_def)
  ultimately have "s = p @ ws @ g @ drop 6 (dropWhile isspace r)" by metis
  with mp have "match_here s = Some (p @ ws @ g, g)"
    unfolding match_here_Some by blast
  then show "\<exists>m g. match_here s = Some (m, g)" by blast
next
  assume "\<exists>m g. match_here s = Some (m, g)"
  then obtain m g p ws rest where s: "s = p @ ws @ g @ rest" and mp: "marker_parts p ws g"
    unfolding match_here_Some by blast
  then have p: "ci_equal p (str ''FINAL_STATUS:'')" and ws: "list_all isspace ws"
    and g: "ci_equal g (str ''PASSED'') \<or> ci_equal g (str ''FAILED'')"
    unfolding marker_parts_def by blast+
  have lp: "length p = 13" using ci_equal_length[OF p] by (simp add: length_str)
  have lg: "length g = 6" using g by (simp add: status_word_length)
  from status_word_head[OF g] obtain c cs where c: "g = c # cs" "\<not> isspace c" by blast
  have tw: "takeWhile isspace (ws @ g @ rest) = ws" "dropWhile isspace (ws @ g @ rest) = g @ rest"
    using takeWhile_blanks[OF ws c(2), of "cs @ rest"] c(1) by simp_all
  show "marker_here s"
    unfolding marker_here_def Let_def using s lp lg tw mp by simp
qed

lemma marker_here_parts:
  "marker_here s \<longleftrightarrow> (\<exists>p ws w rest. s = p @ ws @ w @ rest \<and> marker_parts p ws w)"
  unfolding marker_here_iff match_here_Some by blast

lemma match_here_Nil: "match_here [] = None"
  by (simp add: match_here_def str_literals)

lemma re_search_append:
  assumes "\<forall>i<length pre. match_here (drop i (pre @ s)) = None"
  shows "re_search (pre @ s) = re_search s"
  using assms
proof (induction pre)
  case Nil
  then show ?case by simp
next
  case (Cons c pre)
  from Cons.prems have h: "match_here (c # pre @ s) = None"
    by (metis append_Cons drop0 length_greater_0_conv list.distinct(1))
  have "\<forall>i<length pre. match_here (drop i (pre @ s)) = None"
  proof (intro allI impI)
    fix i assume "i < length pre"
    then have "Suc i < length (c # pre)" by simp
    with Cons.prems have "match_here (drop (Suc i) ((c # pre) @ s)) = None" by blast
    then show "match_here (drop i (pre @ s)) = None" by simp
  qed
  with Cons.IH h show ?case by simp
qed

lemma re_search_here:
  assumes "match_here s = Some mg"
  shows "re_search s = Some mg"
  using assms by (cases s) (simp_all add: match_here_Nil)

lemma re_search_first:
  assumes "match_here s = Some mg"
      and "\<forall>i<length pre. match_here (drop i (pre @ s)) = None"
  shows "re_search (pre @ s) = Some mg"
  using re_search_append[OF assms(2)] re_search_here[OF assms(1)] by simp

lemma re_search_Some:
  assumes "re_search t = Some mg"
  shows "\<exists>pre s. t = pre @ s \<and> match_here s = Some mg
           \<and> (\<forall>i<length pre. match_here (drop i t) = None)"
  using assms
proof (induction t)
  case Nil
  then show ?case by (simp add: match_here_Nil)
next
  case (Cons c cs)
  show ?case
  proof (cases "match_here (c # cs)")
    case (Some m)
    with Cons.prems have "m = mg" by simp
    with Some show ?thesis by (intro exI[of _ "[]"] exI[of _ "c # cs"]) simp
  next
    case None
    with Cons.prems have "re_search cs = Some mg" by simp
    from Cons.IH[OF this] obtain pre s where ps: "cs = pre @ s" "match_here s = Some mg"
      "\<forall>i<length pre. match_here (drop i cs) = None" by blast
    have "\<forall>i<length (c # pre). match_here (drop i (c # cs)) = None"
    proof (intro allI impI)
      fix i assume i: "i < length (c # pre)"
      show "match_here (drop i (c # cs)) = None"
      proof (cases i)
        case 0
        with None show ?thesis by simp
      next
        case (Suc j)
        with i ps(3) show ?thesis by simp
      qed
    qed
    with ps show ?thesis by (intro exI[of _ "c # pre"] exI[of _ s]) simp
  qed
qed

lemma re_search_None_iff:
  "re_search t = None \<longleftrightarrow> (\<forall>i\<le>length t. match_here (drop i t) = None)"
proof (induction t)
  case Nil
  then show ?case by (simp add: match_here_Nil)
next
  case (Cons c cs)
  have "(\<forall>i\<le>length (c # cs). match_here (drop i (c # cs)) = None)
          \<longleftrightarrow> match_here (c # cs) = None \<and> (\<forall>i\<le>length cs. match_here (drop i cs) = None)"
  proof
    assume a: "\<forall>i\<le>length (c # cs). match_here (drop i (c # cs)) = None"
    then have "match_here (drop 0 (c # cs)) = None" by blast
    moreover have "\<forall>i\<le>length cs. match_here (drop i cs) = None"
    proof (intro allI impI)
      fix i assume "i \<le> length cs"
      then have "Suc i \<le> length (c # cs)" by simp
      with a have "match_here (drop (Suc i) (c # cs)) = None" by blast
      then show "match_here (drop i cs) = None" by simp
    qed
    ultimately show "match_here (c # cs) = None \<and> (\<forall>i\<le>length cs. match_here (drop i cs) = None)"
      by simp
  next
    assume a: "match_here (c # cs) = None \<and> (\<forall>i\<le>length cs. match_here (drop i cs) = None)"
    show "\<forall>i\<le>length (c # cs). match_here (drop i (c # cs)) = None"
    proof (intro allI impI)
      fix i assume i: "i \<le> length (c # cs)"
      show "match_here (drop i (c # cs)) = None"
        using a i by (cases i) simp_all
    qed
  qed
  with Cons show ?case by (simp split: option.splits)
qed

lemma re_search_found:
  assumes "match_here s \<noteq> None"
  shows "\<exists>pre' s' mg. pre @ s = pre' @ s' \<and> length pre' \<le> length pre
           \<and> match_here s' = Some mg \<and> re_search (pre @ s) = Some mg
           \<and> (\<forall>i<length pre'. match_here (drop i (pre @ s)) = None)"
proof (cases "re_search (pre @ s)")
  case None
  then have "\<forall>i\<le>length (pre @ s). match_here (drop i (pre @ s)) = None"
    by (simp only: re_search_None_iff)
  moreover have "length pre \<le> length (pre @ s)" by simp
  ultimately have "match_here (drop (length pre) (pre @ s)) = None" by blast
  with assms show ?thesis by simp
next
  case (Some mg)
  from re_search_Some[OF this] obtain pre' s' where ps: "pre @ s = pre' @ s'"
    "match_here s' = Some mg" "\<forall>i<length pre'. match_here (drop i (pre @ s)) = None" by blast
  have "length pre' \<le> length pre"
  proof (rule ccontr)
    assume "\<not> length pre' \<le> length pre"
    then have "length pre < length pre'" by simp
    with ps(3) have "match_here (drop (length pre) (pre @ s)) = None" by blast
    with assms show False by simp
  qed
  with ps Some show ?thesis by blast
qed

lemma replace_segments:
  assumes "old \<noteq> []"
  shows "\<exists>segs. segs \<noteq> [] \<and> s = join old segs \<and> replace s old [] = concat segs"
  using assms
proof (induction s old "[] :: 'a list" rule: replace.induct)
  case (1 old)
  then show ?case by (intro exI[of _ "[[]]"]) simp
next
  case (2 c cs old)
  show ?case
  proof (cases "prefix old (c # cs)")
    case True
    then have eq: "c # cs = old @ drop (length old) (c # cs)"
      by (metis append_eq_conv_conj prefixE)
    from 2(2)[OF 2(4) True 2(4)] obtain segs where segs: "segs \<noteq> []"
      "drop (length old) (c # cs) = join old segs"
      "replace (drop (length old) (c # cs)) old [] = concat segs" by blast
    from segs(1) obtain x xs where x: "segs = x # xs" by (cases segs) auto
    have "c # cs = join old ([] # segs)" using eq segs(2) x by simp
    moreover have "replace (c # cs) old [] = concat ([] # segs)"
      using True 2(4) segs(3) by simp
    ultimately show ?thesis by (intro exI[of _ "[] # segs"]) simp
  next
    case False
    from 2(3)[OF 2(4) False 2(4)] obtain segs where segs: "segs \<noteq> []"
      "cs = join old segs" "replace cs old [] = concat segs" by blast
    from segs(1) obtain x xs where x: "segs = x # xs" by (cases segs) auto
    have "c # cs = join old ((c # x) # xs)" using segs(2) x by (cases xs) simp_all
    moreover have "replace (c # cs) old [] = concat ((c # x) # xs)"
      using False 2(4) segs(3) x by simp
    ultimately show ?thesis by (intro exI[of _ "(c # x) # xs"]) simp
  qed
qed

lemma not_marker_here: "\<not> marker_here s \<longleftrightarrow> match_here s = None"
  by (cases "match_here s") (auto simp: marker_here_iff)

lemma no_marker_iff:
  "(\<forall>i\<le>length t. \<not> marker_here (drop i t)) \<longleftrightarrow> re_search t = None"
  by (simp only: re_search_None_iff not_marker_here)

lemma no_earlier_marker:
  "(\<forall>i<n. \<not> marker_here (drop i t)) \<longleftrightarrow> (\<forall>i<n. match_here (drop i t) = None)"
  by (simp only: not_marker_here)

lemma parse_found:
  assumes "re_search text = Some (m, g)"
  shows "parse_markdown_response text
           = \<lparr>is_ok = (upper g = str ''PASSED''), report = strip (replace text m [])\<rparr>"
  using assms by (simp add: parse_markdown_response_def)

lemma parse_not_found:
  assumes "re_search text = None"
  shows "parse_markdown_response text
           = \<lparr>is_ok = \<not> (str_in (str ''CRITICAL BUG'') (upper text)
                          \<or> str_in (str ''SECURITY VULNERABILITY'') (upper text)),
              report = text\<rparr>"
  using assms by (simp add: parse_markdown_response_def)

text \<open>
  C2.  When the search finds no marker, that is, when no position of the reply starts a
  marker, the verdict is negative exactly when the upper-cased reply contains
  \<^verbatim>\<open>CRITICAL BUG\<close> or \<^verbatim>\<open>SECURITY VULNERABILITY\<close>, positive otherwise, and the report is the
  reply unchanged.
\<close>

theorem no_marker_fallback:
  assumes "\<forall>i\<le>length text. \<not> marker_here (drop i text)"
  shows "re_search text = None
       \<and> is_ok (parse_markdown_response text)
           = (\<not> (str_in (str ''CRITICAL BUG'') (upper text)
                   \<or> str_in (str ''SECURITY VULNERABILITY'') (upper text)))
       \<and> report (parse_markdown_response text) = text"
proof -
  from assms have n: "re_search text = None" by (simp only: no_marker_iff)
  show ?thesis using n by (simp add: parse_not_found[OF n])
qed

theorem no_marker_fallback_witness:
  "is_ok (parse_markdown_response (str ''Possible SECURITY VULNERABILITY in auth.py'')) = False
   \<and> report (parse_markdown_response (str ''Possible SECURITY VULNERABILITY in auth.py''))
       = str ''Possible SECURITY VULNERABILITY in auth.py''
   \<and> is_ok (parse_markdown_response (str ''No problems found.'')) = True
   \<and> report (parse_markdown_response (str ''No problems found.'')) = str ''No problems found.''
   \<and> is_ok (parse_markdown_response ([223] @ str ''ecurity vulnerability'')) = False"
proof -
  have a: "re_search (str ''Possible SECURITY VULNERABILITY in auth.py'') = None"
    by (simp add: run_simps)
  have b: "re_search (str ''No problems found.'') = None"
    by (simp add: run_simps)
  have c: "re_search ([223] @ str ''ecurity vulnerability'') = None"
    by (simp add: run_simps)
  have ka: "str_in (str ''SECURITY VULNERABILITY'')
              (upper (str ''Possible SECURITY VULNERABILITY in auth.py''))"
    by (simp add: run_simps)
  have kb: "\<not> str_in (str ''CRITICAL BUG'') (upper (str ''No problems found.''))"
           "\<not> str_in (str ''SECURITY VULNERABILITY'') (upper (str ''No problems found.''))"
    by (simp_all add: run_simps)
  have kc: "str_in (str ''SECURITY VULNERABILITY'') (upper ([223] @ str ''ecurity vulnerability''))"
    by (simp add: run_simps upper_cp_sharp_s)
  show ?thesis
    using no_marker_fallback[OF a[folded no_marker_iff]] no_marker_fallback[OF b[folded no_marker_iff]]
          no_marker_fallback[OF c[folded no_marker_iff]] ka kb kc
    by simp
qed

text \<open>
  C9, as amended.  In the branch without a marker the two phrases are matched without
  regard to letter case: a reply that contains a stretch whose upper-case form is either
  phrase gets a negative verdict, and its report is the reply unchanged.
\<close>

theorem fallback_keywords_any_case:
  assumes "\<forall>i\<le>length text. \<not> marker_here (drop i text)"
      and "text = pre @ k @ post"
      and "upper k = str ''CRITICAL BUG'' \<or> upper k = str ''SECURITY VULNERABILITY''"
  shows "is_ok (parse_markdown_response text) = False
       \<and> report (parse_markdown_response text) = text"
proof -
  from assms(1) have n: "re_search text = None" by (simp only: no_marker_iff)
  have "upper text = upper pre @ upper k @ upper post"
    using assms(2) by (simp add: upper_append)
  then have "str_in (upper k) (upper text)" by (simp add: str_in_def)
  with assms(3) have "str_in (str ''CRITICAL BUG'') (upper text)
                       \<or> str_in (str ''SECURITY VULNERABILITY'') (upper text)" by auto
  then show ?thesis by (simp add: parse_not_found[OF n])
qed

theorem fallback_keywords_any_case_witness:
  "is_ok (parse_markdown_response (str ''Found a critical bug in the parser.'')) = False
   \<and> report (parse_markdown_response (str ''Found a critical bug in the parser.''))
       = str ''Found a critical bug in the parser.''"
proof -
  have a: "re_search (str ''Found a critical bug in the parser.'') = None"
    by (simp add: run_simps)
  have u: "upper (str ''critical bug'') = str ''CRITICAL BUG''"
    by (simp add: run_simps)
  have d: "str ''Found a critical bug in the parser.''
             = str ''Found a '' @ str ''critical bug'' @ str '' in the parser.''"
    by (simp add: str_def)
  show ?thesis
    using fallback_keywords_any_case[OF a[folded no_marker_iff] d] u
    by simp
qed

text \<open>
  The claim as it was stated fails on a reply that has the phrase in lower case only: no
  marker is found, neither phrase occurs as written, and the verdict is negative.
\<close>

theorem fallback_keywords_case_counterexample:
  "re_search (str ''Found a critical bug in the parser.'') = None
   \<and> \<not> str_in (str ''CRITICAL BUG'') (str ''Found a critical bug in the parser.'')
   \<and> \<not> str_in (str ''SECURITY VULNERABILITY'') (str ''Found a critical bug in the parser.'')
   \<and> is_ok (parse_markdown_response (str ''Found a critical bug in the parser.'')) = False"
  by (simp add: run_simps)

lemma marker_nonempty: "marker_parts p ws w \<Longrightarrow> p @ ws @ w \<noteq> []"
  using ci_equal_length[of p "str ''FINAL_STATUS:''"] by (auto simp: marker_parts_def length_str)

lemma status_word_verdict:
  assumes "ci_equal w (str ''PASSED'') \<or> ci_equal w (str ''FAILED'')"
  shows "upper w = str ''PASSED'' \<longleftrightarrow> ci_equal w (str ''PASSED'')"
  using assms upper_passed upper_failed by blast

text \<open>
  C1, as amended.  When the reply contains a marker, the whole pattern being matched
  without regard to letter case (the prefix \<^verbatim>\<open>FINAL_STATUS:\<close> as well as the status word),
  the extractor takes the leftmost marker of the reply, which starts no later than the
  given one: the verdict is positive exactly when its status word upper-cases to
  \<^verbatim>\<open>PASSED\<close>, which is when it is \<^verbatim>\<open>PASSED\<close> in some letter case, and the report is the
  reply with the occurrences of that matched text removed and the blanks at both ends
  trimmed.  In particular the reply \<^verbatim>\<open>Looks fine.\<close>, newline, \<^verbatim>\<open>FINAL_STATUS: PASSED\<close> gives
  a positive verdict and the report \<^verbatim>\<open>Looks fine.\<close>
\<close>

theorem extract_marker_found:
  assumes "text = pre @ p @ ws @ w @ post"
      and "marker_parts p ws w"
  shows "(\<exists>pre' p' ws' w' post'.
            text = pre' @ p' @ ws' @ w' @ post' \<and> marker_parts p' ws' w'
            \<and> length pre' \<le> length pre
            \<and> (\<forall>i<length pre'. \<not> marker_here (drop i text))
            \<and> parse_markdown_response text
                = \<lparr>is_ok = (upper w' = str ''PASSED''),
                   report = strip (replace text (p' @ ws' @ w') [])\<rparr>
            \<and> (upper w' = str ''PASSED'') = ci_equal w' (str ''PASSED''))
       \<and> parse_markdown_response (str ''Looks fine.\<newline>FINAL_STATUS: PASSED'')
           = \<lparr>is_ok = True, report = str ''Looks fine.''\<rparr>"
proof
  have "match_here (p @ ws @ w @ post) = Some (p @ ws @ w, w)"
    unfolding match_here_Some using assms(2) by blast
  then have "match_here (p @ ws @ w @ post) \<noteq> None" by simp
  from re_search_found[OF this, of pre] obtain pre' s' m g where
    f: "pre @ p @ ws @ w @ post = pre' @ s'" "length pre' \<le> length pre"
       "match_here s' = Some (m, g)" "re_search (pre @ p @ ws @ w @ post) = Some (m, g)"
       "\<forall>i<length pre'. match_here (drop i (pre @ p @ ws @ w @ post)) = None"
    by (metis surj_pair)
  from f(3) obtain p' ws' rest where
    m: "s' = p' @ ws' @ g @ rest" "m = p' @ ws' @ g" "marker_parts p' ws' g"
    unfolding match_here_Some by blast
  have t: "text = pre' @ p' @ ws' @ g @ rest" using assms(1) f(1) m(1) by simp
  have e: "\<forall>i<length pre'. \<not> marker_here (drop i text)"
    using f(5) assms(1) by (simp only: no_earlier_marker)
  have r: "parse_markdown_response text
             = \<lparr>is_ok = (upper g = str ''PASSED''), report = strip (replace text (p' @ ws' @ g) [])\<rparr>"
    using parse_found[of "text" m g] f(4) assms(1) m(2) by simp
  have v: "(upper g = str ''PASSED'') = ci_equal g (str ''PASSED'')"
    using m(3) by (simp add: marker_parts_def status_word_verdict)
  show "\<exists>pre' p' ws' w' post'.
            text = pre' @ p' @ ws' @ w' @ post' \<and> marker_parts p' ws' w'
            \<and> length pre' \<le> length pre
            \<and> (\<forall>i<length pre'. \<not> marker_here (drop i text))
            \<and> parse_markdown_response text
                = \<lparr>is_ok = (upper w' = str ''PASSED''),
                   report = strip (replace text (p' @ ws' @ w') [])\<rparr>
            \<and> (upper w' = str ''PASSED'') = ci_equal w' (str ''PASSED'')"
    using t m(3) f(2) e r v by blast
next
  show "parse_markdown_response (str ''Looks fine.\<newline>FINAL_STATUS: PASSED'')
           = \<lparr>is_ok = True, report = str ''Looks fine.''\<rparr>"
    by (simp add: run_simps)
qed

theorem extract_marker_found_witness:
  "marker_parts (str ''final_status:'') [160, 32] (str ''failed'')
   \<and> (\<exists>pre' p' ws' w' post'.
         str ''Found issue.\<newline>final_status:'' @ [160, 32] @ str ''failed\<newline>Thanks.''
           = pre' @ p' @ ws' @ w' @ post'
         \<and> marker_parts p' ws' w'
         \<and> length pre' \<le> length (str ''Found issue.\<newline>'')
         \<and> parse_markdown_response
               (str ''Found issue.\<newline>final_status:'' @ [160, 32] @ str ''failed\<newline>Thanks.'')
             = \<lparr>is_ok = (upper w' = str ''PASSED''),
                report = strip (replace
                  (str ''Found issue.\<newline>final_status:'' @ [160, 32] @ str ''failed\<newline>Thanks.'')
                  (p' @ ws' @ w') [])\<rparr>)"
proof -
  have mp: "marker_parts (str ''final_status:'') [160, 32] (str ''failed'')"
    by (simp add: marker_parts_def ci_equal_def str_def ignorecase_class_def isspace_def)
  have d: "str ''Found issue.\<newline>final_status:'' @ [160, 32] @ str ''failed\<newline>Thanks.''
             = str ''Found issue.\<newline>'' @ str ''final_status:'' @ [160, 32] @ str ''failed''
                 @ str ''\<newline>Thanks.''"
    by (simp add: str_def)
  from extract_marker_found[OF d mp] show ?thesis using mp by blast
qed

text \<open>
  The claim as it was stated, with only the status word free in its letter case, fails on
  a reply whose first marker has a lower-case prefix: read that way the only marker is the
  second one and the verdict is positive with the first line left as the report, while
  the program matches the first line, gives a negative verdict and leaves the second line.
\<close>

theorem extract_prefix_case_counterexample:
  "spec_extract (str ''final_status: FAILED\<newline>FINAL_STATUS: PASSED'')
     = \<lparr>is_ok = True, report = str ''final_status: FAILED''\<rparr>
   \<and> parse_markdown_response (str ''final_status: FAILED\<newline>FINAL_STATUS: PASSED'')
     = \<lparr>is_ok = False, report = str ''FINAL_STATUS: PASSED''\<rparr>"
  by (simp add: run_simps spec_extract_def spec_marker_here_def ci_equal_def)

text \<open>
  C10.  When the reply contains two markers of which one says \<^verbatim>\<open>PASSED\<close> and the other
  \<^verbatim>\<open>FAILED\<close>, and no marker starts before the first of them, the verdict is the one of the
  first marker and not the one of the second; the report is the reply with the
  occurrences of the first marker's text removed, that is, the reply is a sequence of
  segments joined by that text and the report is the trimmed concatenation of the
  segments; the text of the second marker is a different one.
\<close>

theorem first_marker_wins:
  assumes "text = pre @ p1 @ ws1 @ w1 @ mid @ p2 @ ws2 @ w2 @ post"
      and "marker_parts p1 ws1 w1"
      and "marker_parts p2 ws2 w2"
      and "ci_equal w1 (str ''PASSED'') \<longleftrightarrow> ci_equal w2 (str ''FAILED'')"
      and "\<forall>i<length pre. \<not> marker_here (drop i text)"
  shows "is_ok (parse_markdown_response text) = (upper w1 = str ''PASSED'')
       \<and> is_ok (parse_markdown_response text) = ci_equal w1 (str ''PASSED'')
       \<and> is_ok (parse_markdown_response text) \<noteq> ci_equal w2 (str ''PASSED'')
       \<and> report (parse_markdown_response text) = strip (replace text (p1 @ ws1 @ w1) [])
       \<and> (\<exists>segs. text = join (p1 @ ws1 @ w1) segs
                  \<and> report (parse_markdown_response text) = strip (concat segs))
       \<and> p2 @ ws2 @ w2 \<noteq> p1 @ ws1 @ w1"
proof -
  let ?m1 = "p1 @ ws1 @ w1"
  let ?s = "p1 @ ws1 @ w1 @ mid @ p2 @ ws2 @ w2 @ post"
  have t: "text = pre @ ?s" using assms(1) by simp
  have h: "match_here ?s = Some (?m1, w1)"
    unfolding match_here_Some using assms(2) by blast
  have e: "\<forall>i<length pre. match_here (drop i (pre @ ?s)) = None"
    using assms(5) unfolding t by (simp only: no_earlier_marker)
  have rs: "re_search text = Some (?m1, w1)"
    unfolding t by (rule re_search_first[OF h e])
  have pr: "parse_markdown_response text
              = \<lparr>is_ok = (upper w1 = str ''PASSED''), report = strip (replace text ?m1 [])\<rparr>"
    by (rule parse_found[OF rs])
  have s1: "ci_equal w1 (str ''PASSED'') \<or> ci_equal w1 (str ''FAILED'')"
   and s2: "ci_equal w2 (str ''PASSED'') \<or> ci_equal w2 (str ''FAILED'')"
    using assms(2,3) by (simp_all add: marker_parts_def)
  have v1: "(upper w1 = str ''PASSED'') = ci_equal w1 (str ''PASSED'')"
    by (rule status_word_verdict[OF s1])
  have other: "ci_equal w1 (str ''PASSED'') \<noteq> ci_equal w2 (str ''PASSED'')"
    using assms(4) s1 s2 passed_not_failed by blast
  from replace_segments[OF marker_nonempty[OF assms(2)], of "text"] obtain segs where
    segs: "text = join ?m1 segs" "replace text ?m1 [] = concat segs" by blast
  have ne: "p2 @ ws2 @ w2 \<noteq> ?m1"
  proof
    assume eq: "p2 @ ws2 @ w2 = ?m1"
    have "match_here (p2 @ ws2 @ w2 @ []) = Some (p2 @ ws2 @ w2, w2)"
      unfolding match_here_Some using assms(3) by blast
    moreover have "match_here (p1 @ ws1 @ w1 @ []) = Some (?m1, w1)"
      unfolding match_here_Some using assms(2) by blast
    ultimately have "w1 = w2" using eq by simp
    with other show False by simp
  qed
  show ?thesis using pr v1 other segs ne by auto
qed

lemma all_less_list_all: "(\<forall>i<n. P i) \<longleftrightarrow> list_all P [0..<n]"
  by (auto simp: list_all_iff)

theorem first_marker_wins_witness:
  "is_ok (parse_markdown_response
            (str ''Done. FINAL_STATUS:'' @ [160] @ str ''FAILED\<newline>FINAL_STATUS: PASSED'')) = False
   \<and> report (parse_markdown_response
            (str ''Done. FINAL_STATUS:'' @ [160] @ str ''FAILED\<newline>FINAL_STATUS: PASSED''))
       = str ''Done. \<newline>FINAL_STATUS: PASSED''"
proof -
  let ?t = "str ''Done. FINAL_STATUS:'' @ [160] @ str ''FAILED\<newline>FINAL_STATUS: PASSED''"
  have d: "?t = str ''Done. '' @ str ''FINAL_STATUS:'' @ [160] @ str ''FAILED'' @ str ''\<newline>''
                 @ str ''FINAL_STATUS:'' @ str '' '' @ str ''PASSED'' @ []"
    by (simp add: str_def)
  have m1: "marker_parts (str ''FINAL_STATUS:'') [160] (str ''FAILED'')"
    by (simp add: marker_parts_def ci_equal_def str_def ignorecase_class_def isspace_def)
  have m2: "marker_parts (str ''FINAL_STATUS:'') (str '' '') (str ''PASSED'')"
    by (simp add: marker_parts_def ci_equal_def str_def ignorecase_class_def isspace_def)
  have c: "ci_equal (str ''FAILED'') (str ''PASSED'') \<longleftrightarrow> ci_equal (str ''PASSED'') (str ''FAILED'')"
    by (simp add: ci_equal_def str_def ignorecase_class_def)
  have "list_all (\<lambda>i. \<not> marker_here (drop i ?t)) [0..<length (str ''Done. '')]"
    by (simp add: marker_here_def marker_parts_def ci_equal_def str_def ignorecase_class_def
                  isspace_def upt_rec_numeral)
  then have e: "\<forall>i<length (str ''Done. ''). \<not> marker_here (drop i ?t)"
    by (simp only: all_less_list_all)
  have r: "strip (replace ?t (str ''FINAL_STATUS:'' @ [160] @ str ''FAILED'') [])
             = str ''Done. \<newline>FINAL_STATUS: PASSED''"
    by (simp add: run_simps)
  have u: "ci_equal (str ''FAILED'') (str ''PASSED'') = False"
    by (simp add: ci_equal_def str_def ignorecase_class_def)
  from first_marker_wins[OF d m1 m2 c e]
  have "is_ok (parse_markdown_response ?t) = ci_equal (str ''FAILED'') (str ''PASSED'')"
   and "report (parse_markdown_response ?t)
          = strip (replace ?t (str ''FINAL_STATUS:'' @ [160] @ str ''FAILED'') [])"
    by blast+
  then show ?thesis by (simp only: r u)
qed

text \<open>
  Runs on replies with characters outside ASCII: a no-break space between the prefix and
  the status word, a no-break space at the end of the report, a status word written with
  the long s, and a phrase written with the sharp s.
\<close>

lemma unicode_blank_in_marker:
  "parse_markdown_response (str ''FINAL_STATUS:'' @ [160] @ str ''FAILED\<newline>FINAL_STATUS: PASSED'')
     = \<lparr>is_ok = False, report = str ''FINAL_STATUS: PASSED''\<rparr>"
  by (simp add: run_simps)

lemma unicode_blank_stripped:
  "parse_markdown_response (str ''ok'' @ [160] @ str ''\<newline>FINAL_STATUS: PASSED'')
     = \<lparr>is_ok = True, report = str ''ok''\<rparr>"
  by (simp add: run_simps)

lemma long_s_status_word:
  "parse_markdown_response (str ''FINAL_STATUS: PA'' @ [383, 383] @ str ''ED'')
     = \<lparr>is_ok = True, report = []\<rparr>"
  by (simp add: run_simps upper_cp_long_s)

lemma sharp_s_keyword:
  "parse_markdown_response ([223] @ str ''ecurity vulnerability'')
     = \<lparr>is_ok = False, report = [223] @ str ''ecurity vulnerability''\<rparr>"
  by (simp add: run_simps upper_cp_sharp_s)

end
